theory Spec2Isabelle
  imports Main "HOL-Library.Word"
begin

section \<open>Basic types\<close>

text \<open>
  \<open>thor.Address\<close> is a 20-byte array and \<open>thor.Hash\<close> a 32-byte array; both are
  compared with \<open>==\<close>, so a word of the same width models them. \<open>thor.Address{}\<close> is
  the all-zero address.
\<close>

type_synonym address = "160 word"
type_synonym hash = "256 word"
type_synonym u64 = "64 word"
type_synonym u32 = "32 word"
type_synonym byte = "8 word"

definition emptyAddress :: address where
  "emptyAddress = 0"

text \<open>A Go \<open>error\<close> value carries its message; \<open>errors.New\<close> builds one from a string.\<close>

datatype error = errors_New string

text \<open>Run-time panics of the Go code that the model keeps as results.\<close>

datatype panic = StaticCallRequiresTo | IndexOutOfRange | NilPointerDereference

text \<open>
  Modelled from the spec: the declarations of \<open>tx.Clause\<close> and \<open>tx.Transaction\<close> are not
  part of the sources at hand. A clause has an optional recipient (\<open>To()\<close> returns a
  pointer, nil for a contract creation), a value (a big integer) and payload bytes. A
  transaction is read only through its accessors, whose results are the fields here:
  \<open>Signer()\<close> and \<open>IntrinsicGas()\<close> return a value or an error, \<open>Gas()\<close> is a
  \<open>uint64\<close>, \<open>GasPrice()\<close> a big integer.
\<close>

record Clause =
  To :: "address option"
  Value :: int
  Data :: "byte list"

record Transaction =
  Signer :: "error + address"
  IntrinsicGas :: "error + u64"
  Gas :: u64
  GasPrice :: int
  Clauses :: "Clause list"
  ID :: hash

text \<open>
  Modelled from the spec: \<open>vm.Log\<close>, \<open>tx.Log\<close>, \<open>vm.Output\<close>, \<open>tx.Output\<close> and
  \<open>tx.Receipt\<close> are declared outside the sources at hand; the fields are those the code
  reads and writes. The conversion \<open>(*Tx.Log)(vmLog)\<close> is a pointer conversion between
  two struct types of the same layout, so one record serves for both kinds of log.
  \<open>RefundGas\<close> is a \<open>*big.Int\<close>, hence an unbounded signed integer. A slice of
  pointers that the code creates with \<open>make\<close> and fills by index is a list of options
  (\<open>None\<close> is the nil pointer); the receipt's \<open>Outputs\<close> slice itself may be nil.
\<close>

record Log =
  Address :: address
  Topics :: "hash list"
  LogData :: "byte list"

record vm_Output =
  LeftOverGas :: u64
  RefundGas :: int
  Logs_vm :: "Log list"
  VMErr :: "error option"

record Output =
  Logs :: "Log list"

record Receipt =
  GasUsed :: u64
  GasPayer :: address
  Reverted :: bool
  Outputs :: "Output option list option"

section \<open>Common recipient (runtime.go, commonTo)\<close>

text \<open>The loop over \<open>clauses[1:]\<close>, with its two early returns.\<close>

fun commonToLoop :: "address \<Rightarrow> Clause list \<Rightarrow> address" where
  "commonToLoop firstTo [] = firstTo"
| "commonToLoop firstTo (clause # rest) =
     (case To clause of
        None \<Rightarrow> emptyAddress
      | Some to \<Rightarrow> if to \<noteq> firstTo then emptyAddress else commonToLoop firstTo rest)"

definition commonTo :: "Clause list \<Rightarrow> address" where
  "commonTo clauses =
     (if length clauses = 0 then emptyAddress
      else case To (clauses ! 0) of
             None \<Rightarrow> emptyAddress
           | Some firstTo \<Rightarrow> commonToLoop firstTo (drop 1 clauses))"

section \<open>The collaborators of the runtime\<close>

text \<open>
  The world state is threaded explicitly: every operation that may write takes the state
  and returns the new one. The type of states is a parameter \<open>'s\<close>.

  Modelled from the spec: the state store (package \<open>state\<close>) is not part of the sources
  at hand. A checkpoint represents the state as of the point where it was taken, and
  reverting to it restores exactly that state, discarding every write made since. With
  states as values, the checkpoint is the state value itself.
\<close>

definition NewCheckpoint :: "'s \<Rightarrow> 's" where
  "NewCheckpoint st = st"

definition RevertTo :: "'s \<Rightarrow> 's \<Rightarrow> 's" where
  "RevertTo st checkpoint = checkpoint"

text \<open>
  The energy contract (\<open>cs.Energy\<close>) is a parameter: \<open>Consume\<close> takes the state, the
  block time, the origin, the recipient hint and the amount, and returns the payer and a
  success flag (and the state it leaves); \<open>GetBalance\<close> reads and \<open>SetBalance\<close> writes.
\<close>

record 's Energy =
  Consume :: "'s \<Rightarrow> u64 \<Rightarrow> address \<Rightarrow> address \<Rightarrow> int \<Rightarrow> (address \<times> bool) \<times> 's"
  GetBalance :: "'s \<Rightarrow> u64 \<Rightarrow> address \<Rightarrow> int"
  SetBalance :: "'s \<Rightarrow> u64 \<Rightarrow> address \<Rightarrow> int \<Rightarrow> 's"

text \<open>
  The call context handed to the interpreter (\<open>vm.Context\<close>), as \<open>execute\<close> fills it.
\<close>

record Context =
  Beneficiary :: address
  BlockNumber :: int
  Time :: int
  GasLimit :: int
  Origin :: address
  GasPrice_ctx :: int
  TxHash :: hash
  GetHash :: "u32 \<Rightarrow> hash"
  ClauseIndex :: u64

text \<open>
  The interpreter is a parameter too. \<open>vm.New(ctx, rt.state, rt.vmConfig)\<close> followed by
  the three \<open>HookContract\<close> registrations yields an environment with three entry
  points; each takes the context, the configuration and the state, and returns the
  output of the call and the state it leaves.
\<close>

record ('s, 'cfg) VM =
  env_Create :: "Context \<Rightarrow> 'cfg \<Rightarrow> 's \<Rightarrow> address \<Rightarrow> byte list \<Rightarrow> u64 \<Rightarrow> int
                  \<Rightarrow> vm_Output \<times> 's"
  env_StaticCall :: "Context \<Rightarrow> 'cfg \<Rightarrow> 's \<Rightarrow> address \<Rightarrow> address \<Rightarrow> byte list \<Rightarrow> u64
                  \<Rightarrow> vm_Output \<times> 's"
  env_Call :: "Context \<Rightarrow> 'cfg \<Rightarrow> 's \<Rightarrow> address \<Rightarrow> address \<Rightarrow> byte list \<Rightarrow> u64 \<Rightarrow> int
                  \<Rightarrow> vm_Output \<times> 's"

section \<open>The runtime (runtime.go)\<close>

text \<open>The \<open>Runtime\<close> struct without its state pointer, which is passed beside it.\<close>

record 'cfg Runtime =
  vmConfig :: 'cfg
  getBlockID :: "u32 \<Rightarrow> hash"
  blockBeneficiary :: address
  blockNumber :: u32
  blockTime :: u64
  blockGasLimit :: u64

definition SetVMConfig :: "'cfg Runtime \<Rightarrow> 'cfg \<Rightarrow> 'cfg Runtime" where
  "SetVMConfig rt config = rt\<lparr>vmConfig := config\<rparr>"

definition execute ::
  "('s, 'cfg) VM \<Rightarrow> 'cfg Runtime \<Rightarrow> 's \<Rightarrow> Clause \<Rightarrow> nat \<Rightarrow> u64 \<Rightarrow> address \<Rightarrow> int \<Rightarrow> hash \<Rightarrow> bool
     \<Rightarrow> panic + (vm_Output \<times> 's)" where
  "execute vm rt st clause index gas txOrigin txGasPrice txID isStatic =
     (let to = To clause in
      if isStatic \<and> to = None then Inl StaticCallRequiresTo
      else
        let ctx = \<lparr>Beneficiary = blockBeneficiary rt,
                   BlockNumber = uint (blockNumber rt),
                   Time = uint (blockTime rt),
                   GasLimit = uint (blockGasLimit rt),
                   Origin = txOrigin,
                   GasPrice_ctx = txGasPrice,
                   TxHash = txID,
                   GetHash = getBlockID rt,
                   ClauseIndex = of_nat index\<rparr>
        in case to of
             None \<Rightarrow> Inr (env_Create vm ctx (vmConfig rt) st txOrigin (Data clause) gas (Value clause))
           | Some to' \<Rightarrow>
               if isStatic
               then Inr (env_StaticCall vm ctx (vmConfig rt) st txOrigin to' (Data clause) gas)
               else Inr (env_Call vm ctx (vmConfig rt) st txOrigin to' (Data clause) gas
                           (Value clause)))"

definition StaticCall ::
  "('s, 'cfg) VM \<Rightarrow> 'cfg Runtime \<Rightarrow> 's \<Rightarrow> Clause \<Rightarrow> nat \<Rightarrow> u64 \<Rightarrow> address \<Rightarrow> int \<Rightarrow> hash
     \<Rightarrow> panic + (vm_Output \<times> 's)" where
  "StaticCall vm rt st clause index gas txOrigin txGasPrice txID =
     execute vm rt st clause index gas txOrigin txGasPrice txID True"

definition Call ::
  "('s, 'cfg) VM \<Rightarrow> 'cfg Runtime \<Rightarrow> 's \<Rightarrow> Clause \<Rightarrow> nat \<Rightarrow> u64 \<Rightarrow> address \<Rightarrow> int \<Rightarrow> hash
     \<Rightarrow> panic + (vm_Output \<times> 's)" where
  "Call vm rt st clause index gas txOrigin txGasPrice txID =
     execute vm rt st clause index gas txOrigin txGasPrice txID False"

text \<open>
  Library functions on big integers: \<open>math.BigMin\<close> returns its second argument when
  the first is greater, and \<open>big.Int.Uint64\<close> returns the low 64 bits of the absolute
  value (the value itself when it fits a \<open>uint64\<close>).
\<close>

definition BigMin :: "int \<Rightarrow> int \<Rightarrow> int" where
  "BigMin x y = (if x > y then y else x)"

definition Uint64 :: "int \<Rightarrow> u64" where
  "Uint64 x = word_of_int \<bar>x\<bar>"

text \<open>An assignment \<open>xs[i] = v\<close> to a slice panics when \<open>i\<close> is out of range.\<close>

definition setIndex :: "'a list \<Rightarrow> nat \<Rightarrow> 'a \<Rightarrow> panic + 'a list" where
  "setIndex xs i v = (if i < length xs then Inr (xs[i := v]) else Inl IndexOutOfRange)"

text \<open>
  The variables the clause loop of \<open>ExecuteTransaction\<close> carries from one iteration to
  the next: the state, \<open>leftOverGas\<close>, \<open>receipt.Outputs\<close> and \<open>vmOutputs\<close>.
\<close>

record 's loopState =
  ls_state :: 's
  leftOverGas :: u64
  receiptOutputs :: "Output option list option"
  vmOutputs :: "vm_Output option list"

text \<open>
  The body of \<open>for i, clause := range clauses\<close>, run on clause \<open>i\<close>. It returns
  the loop variables after the iteration and whether the iteration left the loop by
  \<open>break\<close>.
\<close>

definition clauseStep ::
  "('s, 'cfg) VM \<Rightarrow> 'cfg Runtime \<Rightarrow> Transaction \<Rightarrow> address \<Rightarrow> 's \<Rightarrow> Clause \<Rightarrow> nat
     \<Rightarrow> 's loopState \<Rightarrow> panic + ('s loopState \<times> bool)" where
  "clauseStep vm rt tx origin clauseCheckpoint clause i ls =
     (case execute vm rt (ls_state ls) clause i (leftOverGas ls) origin (GasPrice tx) (ID tx)
             False of
        Inl p \<Rightarrow> Inl p
      | Inr (vmOutput, st') \<Rightarrow>
          (case setIndex (vmOutputs ls) i (Some vmOutput) of
             Inl p \<Rightarrow> Inl p
           | Inr vmOutputs' \<Rightarrow>
               let gasUsed = leftOverGas ls - LeftOverGas vmOutput;
                   halfUsed = uint (gasUsed div 2);
                   refund = BigMin (RefundGas vmOutput) halfUsed;
                   leftOverGas' = LeftOverGas vmOutput + Uint64 refund
               in if VMErr vmOutput \<noteq> None
                  then Inr (\<lparr>ls_state = RevertTo st' clauseCheckpoint,
                             leftOverGas = leftOverGas',
                             receiptOutputs = None,
                             vmOutputs = vmOutputs'\<rparr>, True)
                  else
                    (case receiptOutputs ls of
                       None \<Rightarrow> Inl IndexOutOfRange
                     | Some outputs \<Rightarrow>
                         (case setIndex outputs i (Some \<lparr>Logs = Logs_vm vmOutput\<rparr>) of
                            Inl p \<Rightarrow> Inl p
                          | Inr outputs' \<Rightarrow>
                              Inr (\<lparr>ls_state = st',
                                    leftOverGas = leftOverGas',
                                    receiptOutputs = Some outputs',
                                    vmOutputs = vmOutputs'\<rparr>, False)))))"

text \<open>The loop itself: the remaining clauses and the index of the first of them.\<close>

fun clauseLoop ::
  "('s, 'cfg) VM \<Rightarrow> 'cfg Runtime \<Rightarrow> Transaction \<Rightarrow> address \<Rightarrow> 's \<Rightarrow> Clause list \<Rightarrow> nat
     \<Rightarrow> 's loopState \<Rightarrow> panic + 's loopState" where
  "clauseLoop vm rt tx origin clauseCheckpoint [] i ls = Inr ls"
| "clauseLoop vm rt tx origin clauseCheckpoint (clause # rest) i ls =
     (case clauseStep vm rt tx origin clauseCheckpoint clause i ls of
        Inl p \<Rightarrow> Inl p
      | Inr (ls', stop) \<Rightarrow>
          if stop then Inr ls'
          else clauseLoop vm rt tx origin clauseCheckpoint rest (i + 1) ls')"

text \<open>
  The three results of \<open>ExecuteTransaction\<close> (receipt, raw outputs, error), each nil or
  not, together with the state the call leaves.
\<close>

type_synonym result = "Receipt option \<times> vm_Output option list option \<times> error option"

definition ExecuteTransaction ::
  "'s Energy \<Rightarrow> ('s, 'cfg) VM \<Rightarrow> 'cfg Runtime \<Rightarrow> Transaction \<Rightarrow> 's \<Rightarrow> panic + (result \<times> 's)" where
  "ExecuteTransaction energy vm rt tx st =
     (case Signer tx of
        Inl err \<Rightarrow> Inr ((None, None, Some err), st)
      | Inr origin \<Rightarrow>
          (case IntrinsicGas tx of
             Inl err \<Rightarrow> Inr ((None, None, Some err), st)
           | Inr intrinsicGas \<Rightarrow>
               let gas = Gas tx in
               if intrinsicGas > gas
               then Inr ((None, None, Some (errors_New ''intrinsic gas exceeds provided gas'')), st)
               else
                 let gasPrice = GasPrice tx;
                     clauses = Clauses tx;
                     energyPrepayed = uint gas * gasPrice
                 in case Consume energy st (blockTime rt) origin (commonTo clauses) energyPrepayed of
                      ((energyPayer, ok), st1) \<Rightarrow>
                        if \<not> ok
                        then Inr ((None, None, Some (errors_New ''insufficient energy'')), st1)
                        else
                          let clauseCheckpoint = NewCheckpoint st1;
                              leftOverGas0 = gas - intrinsicGas;
                              receipt = \<lparr>GasUsed = 0, GasPayer = emptyAddress, Reverted = False,
                                         Outputs = Some (replicate (length clauses) None)\<rparr>
                          in case clauseLoop vm rt tx origin clauseCheckpoint clauses 0
                                    \<lparr>ls_state = st1,
                                     leftOverGas = leftOverGas0,
                                     receiptOutputs = Outputs receipt,
                                     vmOutputs = replicate (length clauses) None\<rparr> of
                               Inl p \<Rightarrow> Inl p
                             | Inr ls \<Rightarrow>
                                 let receipt' = receipt\<lparr>Outputs := receiptOutputs ls,
                                                        GasUsed := gas - leftOverGas ls\<rparr>;
                                     energyToReturn = uint (leftOverGas ls) * gasPrice;
                                     payerBalance = GetBalance energy (ls_state ls) (blockTime rt)
                                                      energyPayer;
                                     st2 = SetBalance energy (ls_state ls) (blockTime rt)
                                             energyPayer (payerBalance + energyToReturn)
                                 in Inr ((Some receipt', Some (vmOutputs ls), None), st2)))"

text \<open>
  Two properties the runtime expects of the interpreter: a call never reports more
  leftover gas than the gas it was given, and the refund counter is never negative.
  Only \<open>Create\<close> and \<open>Call\<close> matter, since \<open>ExecuteTransaction\<close> never makes a
  static call.
\<close>

definition leftOverBounded :: "('s, 'cfg) VM \<Rightarrow> bool" where
  "leftOverBounded vm \<longleftrightarrow>
     (\<forall>ctx cfg st caller data gas v.
        LeftOverGas (fst (env_Create vm ctx cfg st caller data gas v)) \<le> gas) \<and>
     (\<forall>ctx cfg st caller to data gas v.
        LeftOverGas (fst (env_Call vm ctx cfg st caller to data gas v)) \<le> gas)"

definition refundNonNegative :: "('s, 'cfg) VM \<Rightarrow> bool" where
  "refundNonNegative vm \<longleftrightarrow>
     (\<forall>ctx cfg st caller data gas v.
        0 \<le> RefundGas (fst (env_Create vm ctx cfg st caller data gas v))) \<and>
     (\<forall>ctx cfg st caller to data gas v.
        0 \<le> RefundGas (fst (env_Call vm ctx cfg st caller to data gas v)))"

section \<open>Receipts for JSON (package types)\<close>

record ReceiptLog =
  Address_rl :: address
  Topics_rl :: "hash list"
  Data_rl :: string

record Output_types =
  Logs_types :: "ReceiptLog list"

record Receipt_types =
  GasUsed_types :: u64
  GasPayer_types :: address
  Reverted_types :: bool
  Outputs_types :: "Output_types list"

text \<open>
  \<open>hexutil.Encode\<close> of go-ethereum writes \<open>0x\<close> and then two lower-case hexadecimal
  digits for every byte.
\<close>

definition hexDigit :: "nat \<Rightarrow> char" where
  "hexDigit n = ''0123456789abcdef'' ! n"

definition hexutil_Encode :: "byte list \<Rightarrow> string" where
  "hexutil_Encode b =
     ''0x'' @ concat (map (\<lambda>x. [hexDigit (unat x div 16), hexDigit (unat x mod 16)]) b)"

text \<open>
  The body of the loop over \<open>output.Logs\<close>: the address is copied, the topics are copied
  one by one into a fresh slice of the same length, the data is hex-encoded.
\<close>

definition convertLog :: "Log \<Rightarrow> ReceiptLog" where
  "convertLog log =
     \<lparr>Address_rl = Address log,
      Topics_rl = map (\<lambda>topic. topic) (Topics log),
      Data_rl = hexutil_Encode (LogData log)\<rparr>"

text \<open>
  The loop over \<open>rece.Outputs\<close>; reading \<open>output.Logs\<close> through a nil pointer panics.
\<close>

fun convertOutputs :: "Output option list \<Rightarrow> panic + Output_types list" where
  "convertOutputs [] = Inr []"
| "convertOutputs (None # rest) = Inl NilPointerDereference"
| "convertOutputs (Some output # rest) =
     (case convertOutputs rest of
        Inl p \<Rightarrow> Inl p
      | Inr otps \<Rightarrow> Inr (\<lparr>Logs_types = map convertLog (Logs output)\<rparr> # otps))"

definition ConvertReceipt :: "Receipt \<Rightarrow> panic + Receipt_types" where
  "ConvertReceipt rece =
     (case convertOutputs (case Outputs rece of None \<Rightarrow> [] | Some outputs \<Rightarrow> outputs) of
        Inl p \<Rightarrow> Inl p
      | Inr otps \<Rightarrow>
          Inr \<lparr>GasUsed_types = GasUsed rece,
               GasPayer_types = GasPayer rece,
               Reverted_types = Reverted rece,
               Outputs_types = otps\<rparr>)"

text \<open>
  Reading such a string back: the value of a hexadecimal digit, the bytes of a string of
  digit pairs, and the decoder that expects the \<open>0x\<close> prefix. \<open>bytesOf\<close> is the Go
  conversion \<open>[]byte(s)\<close> of a string to its bytes.
\<close>

definition hexValue :: "char \<Rightarrow> nat option" where
  "hexValue c =
     (let n = (of_char c :: nat) in
      if 48 \<le> n \<and> n \<le> 57 then Some (n - 48)
      else if 97 \<le> n \<and> n \<le> 102 then Some (n - 87)
      else None)"

fun decodePairs :: "string \<Rightarrow> byte list option" where
  "decodePairs [] = Some []"
| "decodePairs [c] = None"
| "decodePairs (c # d # rest) =
     (case hexValue c of
        None \<Rightarrow> None
      | Some h \<Rightarrow>
          (case hexValue d of
             None \<Rightarrow> None
           | Some l \<Rightarrow>
               (case decodePairs rest of
                  None \<Rightarrow> None
                | Some bs \<Rightarrow> Some (of_nat (16 * h + l) # bs))))"

definition hexDecode :: "string \<Rightarrow> byte list option" where
  "hexDecode s =
     (case s of
        c # d # rest \<Rightarrow> if c = CHR ''0'' \<and> d = CHR ''x'' then decodePairs rest else None
      | _ \<Rightarrow> None)"

definition bytesOf :: "string \<Rightarrow> byte list" where
  "bytesOf s = map of_char s"

section \<open>A small instance for concrete runs\<close>

text \<open>
  A state with one energy balance and one storage cell; an energy contract that debits
  the origin when the balance suffices; an interpreter that uses half of the gas it is
  given, proposes a refund of 5, emits one log, writes the storage cell, and fails
  exactly on a non-empty payload.
\<close>

definition clauseTo :: "address option \<Rightarrow> Clause" where
  "clauseTo t = \<lparr>To = t, Value = 0, Data = []\<rparr>"

definition demoEnergy :: "(int \<times> nat) Energy" where
  "demoEnergy =
     \<lparr>Consume = (\<lambda>st time origin to amount.
         if amount \<le> fst st then ((origin, True), (fst st - amount, snd st))
         else ((emptyAddress, False), st)),
      GetBalance = (\<lambda>st time a. fst st),
      SetBalance = (\<lambda>st time a v. (v, snd st))\<rparr>"

definition demoOutput :: "address \<Rightarrow> byte list \<Rightarrow> u64 \<Rightarrow> vm_Output" where
  "demoOutput a data gas =
     \<lparr>LeftOverGas = gas div 2,
      RefundGas = 5,
      Logs_vm = [\<lparr>Address = a, Topics = [1, 2], LogData = data\<rparr>],
      VMErr = (if data = [] then None else Some (errors_New ''execution reverted''))\<rparr>"

definition demoVM :: "(int \<times> nat, unit) VM" where
  "demoVM =
     \<lparr>env_Create = (\<lambda>ctx cfg st caller data gas v.
         (demoOutput emptyAddress data gas, (fst st, snd st + 1))),
      env_StaticCall = (\<lambda>ctx cfg st caller to data gas. (demoOutput to data gas, st)),
      env_Call = (\<lambda>ctx cfg st caller to data gas v.
         (demoOutput to data gas, (fst st, snd st + 1)))\<rparr>"

definition demoRuntime :: "unit Runtime" where
  "demoRuntime =
     \<lparr>vmConfig = (), getBlockID = (\<lambda>n. 0), blockBeneficiary = 1, blockNumber = 10,
      blockTime = 1000, blockGasLimit = 10000000\<rparr>"

definition demoTx :: "Clause list \<Rightarrow> Transaction" where
  "demoTx clauses =
     \<lparr>Signer = Inr 77, IntrinsicGas = Inr 100, Gas = 1000, GasPrice = 2,
      Clauses = clauses, ID = 5\<rparr>"

definition okClause :: Clause where
  "okClause = \<lparr>To = Some 7, Value = 0, Data = []\<rparr>"

definition badClause :: Clause where
  "badClause = \<lparr>To = Some 7, Value = 0, Data = [1]\<rparr>"

definition demoLog :: Log where
  "demoLog = \<lparr>Address = 7, Topics = [1, 2], LogData = [171]\<rparr>"

definition demoReceipt :: Receipt where
  "demoReceipt =
     \<lparr>GasUsed = 545, GasPayer = 77, Reverted = False,
      Outputs = Some [Some \<lparr>Logs = [demoLog]\<rparr>]\<rparr>"

section \<open>Common-recipient detection\<close>

lemma commonToLoop_char:
  "commonToLoop a cs = (if \<forall>c\<in>set cs. To c = Some a then a else emptyAddress)"
  by (induction cs) (auto split: option.splits)

lemma commonTo_common:
  assumes "cs \<noteq> []" and "\<forall>c\<in>set cs. To c = Some a"
  shows "commonTo cs = a"
proof (cases cs)
  case Nil
  with assms show ?thesis by simp
next
  case (Cons c rest)
  with assms have "To c = Some a" and "\<forall>c\<in>set rest. To c = Some a" by simp_all
  with Cons show ?thesis by (simp add: commonTo_def commonToLoop_char)
qed

lemma commonTo_differ:
  assumes "c \<in> set cs" and "c' \<in> set cs" and "To c \<noteq> To c'"
  shows "commonTo cs = emptyAddress"
proof (cases cs)
  case Nil
  then show ?thesis by (simp add: commonTo_def)
next
  case (Cons d rest)
  show ?thesis
  proof (cases "To d")
    case None
    with Cons show ?thesis by (simp add: commonTo_def)
  next
    case (Some a)
    have "\<not> (\<forall>x\<in>set rest. To x = Some a)"
    proof
      assume all: "\<forall>x\<in>set rest. To x = Some a"
      have "To x = Some a" if "x \<in> set cs" for x
        using that Cons Some all by auto
      then have "To c = Some a" and "To c' = Some a" using assms by blast+
      with assms show False by simp
    qed
    then have "commonToLoop a rest = emptyAddress"
      by (simp only: commonToLoop_char if_False)
    with Cons Some show ?thesis by (simp add: commonTo_def)
  qed
qed

lemma commonTo_absent:
  assumes "c \<in> set cs" and "To c = None"
  shows "commonTo cs = emptyAddress"
proof (cases "\<exists>c'\<in>set cs. To c' \<noteq> None")
  case True
  then obtain c' where "c' \<in> set cs" "To c \<noteq> To c'" using assms by auto
  with assms show ?thesis using commonTo_differ by blast
next
  case False
  then have "To (cs ! 0) = None" using assms
    by (metis length_pos_if_in_set nth_mem)
  moreover have "length cs \<noteq> 0" using assms by auto
  ultimately show ?thesis by (simp add: commonTo_def)
qed

text \<open>
  C7. \<open>commonTo\<close> returns the shared recipient when the clause list is not empty and
  every clause has that same recipient; it returns the empty address for an empty
  clause list, when some clause has no recipient, and when the recipients of two
  clauses differ.
\<close>

theorem commonTo_spec:
  "(cs \<noteq> [] \<and> (\<forall>c\<in>set cs. To c = Some a) \<longrightarrow> commonTo cs = a) \<and>
   commonTo [] = emptyAddress \<and>
   ((\<exists>c\<in>set cs. To c = None) \<longrightarrow> commonTo cs = emptyAddress) \<and>
   ((\<exists>c\<in>set cs. \<exists>c'\<in>set cs. To c \<noteq> To c') \<longrightarrow> commonTo cs = emptyAddress)"
proof (intro conjI impI)
  assume "cs \<noteq> [] \<and> (\<forall>c\<in>set cs. To c = Some a)"
  then show "commonTo cs = a" using commonTo_common by blast
next
  show "commonTo [] = emptyAddress" by (simp add: commonTo_def)
next
  assume "\<exists>c\<in>set cs. To c = None"
  then show "commonTo cs = emptyAddress" using commonTo_absent by blast
next
  assume "\<exists>c\<in>set cs. \<exists>c'\<in>set cs. To c \<noteq> To c'"
  then show "commonTo cs = emptyAddress" using commonTo_differ by blast
qed

theorem commonTo_spec_witness:
  "commonTo [clauseTo (Some 7), clauseTo (Some 7)] = 7 \<and>
   commonTo [clauseTo (Some 7), clauseTo None] = emptyAddress \<and>
   commonTo [clauseTo (Some 7), clauseTo (Some 9)] = emptyAddress"
proof (intro conjI)
  have "[clauseTo (Some 7), clauseTo (Some 7)] \<noteq> [] \<and>
        (\<forall>c\<in>set [clauseTo (Some 7), clauseTo (Some 7)]. To c = Some 7)"
    by (simp add: clauseTo_def)
  then show "commonTo [clauseTo (Some 7), clauseTo (Some 7)] = 7"
    using commonTo_spec [of "[clauseTo (Some 7), clauseTo (Some 7)]" 7] by blast
  have "\<exists>c\<in>set [clauseTo (Some 7), clauseTo None]. To c = None"
    by (simp add: clauseTo_def)
  then show "commonTo [clauseTo (Some 7), clauseTo None] = emptyAddress"
    using commonTo_spec [of "[clauseTo (Some 7), clauseTo None]" 7] by blast
  have "To (clauseTo (Some 7)) \<noteq> To (clauseTo (Some 9))"
    by (simp add: clauseTo_def)
  then have "\<exists>c\<in>set [clauseTo (Some 7), clauseTo (Some 9)].
               \<exists>c'\<in>set [clauseTo (Some 7), clauseTo (Some 9)]. To c \<noteq> To c'"
    by (metis list.set_intros(1) list.set_intros(2))
  then show "commonTo [clauseTo (Some 7), clauseTo (Some 9)] = emptyAddress"
    using commonTo_spec [of "[clauseTo (Some 7), clauseTo (Some 9)]" 7] by blast
qed

section \<open>The clause loop\<close>

lemma execute_nonstatic:
  "\<exists>vmOutput st'. execute vm rt st clause i gas origin price txid False = Inr (vmOutput, st')"
  by (cases "To clause") (simp_all add: execute_def Let_def prod_eq_iff)

lemma execute_bounded:
  assumes "leftOverBounded vm"
    and "execute vm rt st clause i gas origin price txid False = Inr (vmOutput, st')"
  shows "LeftOverGas vmOutput \<le> gas"
proof (cases "To clause")
  case None
  with assms(2) have "vmOutput = fst (env_Create vm
      \<lparr>Beneficiary = blockBeneficiary rt, BlockNumber = uint (blockNumber rt),
       Time = uint (blockTime rt), GasLimit = uint (blockGasLimit rt), Origin = origin,
       GasPrice_ctx = price, TxHash = txid, GetHash = getBlockID rt,
       ClauseIndex = of_nat i\<rparr> (vmConfig rt) st origin (Data clause) gas (Value clause))"
    by (auto simp: execute_def Let_def)
  with assms(1) show ?thesis by (simp add: leftOverBounded_def)
next
  case (Some to')
  with assms(2) have "vmOutput = fst (env_Call vm
      \<lparr>Beneficiary = blockBeneficiary rt, BlockNumber = uint (blockNumber rt),
       Time = uint (blockTime rt), GasLimit = uint (blockGasLimit rt), Origin = origin,
       GasPrice_ctx = price, TxHash = txid, GetHash = getBlockID rt,
       ClauseIndex = of_nat i\<rparr> (vmConfig rt) st origin to' (Data clause) gas (Value clause))"
    by (auto simp: execute_def Let_def)
  with assms(1) show ?thesis by (simp add: leftOverBounded_def)
qed

lemma execute_refund:
  assumes "refundNonNegative vm"
    and "execute vm rt st clause i gas origin price txid False = Inr (vmOutput, st')"
  shows "0 \<le> RefundGas vmOutput"
proof (cases "To clause")
  case None
  with assms(2) have "vmOutput = fst (env_Create vm
      \<lparr>Beneficiary = blockBeneficiary rt, BlockNumber = uint (blockNumber rt),
       Time = uint (blockTime rt), GasLimit = uint (blockGasLimit rt), Origin = origin,
       GasPrice_ctx = price, TxHash = txid, GetHash = getBlockID rt,
       ClauseIndex = of_nat i\<rparr> (vmConfig rt) st origin (Data clause) gas (Value clause))"
    by (auto simp: execute_def Let_def)
  with assms(1) show ?thesis by (simp add: refundNonNegative_def)
next
  case (Some to')
  with assms(2) have "vmOutput = fst (env_Call vm
      \<lparr>Beneficiary = blockBeneficiary rt, BlockNumber = uint (blockNumber rt),
       Time = uint (blockTime rt), GasLimit = uint (blockGasLimit rt), Origin = origin,
       GasPrice_ctx = price, TxHash = txid, GetHash = getBlockID rt,
       ClauseIndex = of_nat i\<rparr> (vmConfig rt) st origin to' (Data clause) gas (Value clause))"
    by (auto simp: execute_def Let_def)
  with assms(1) show ?thesis by (simp add: refundNonNegative_def)
qed

text \<open>The refund of one iteration, as an integer and as the word added.\<close>

lemma refund_word:
  assumes "0 \<le> r"
  shows "Uint64 (BigMin r (uint ((g::u64) div 2))) = word_of_int (min r (uint g div 2))"
    and "uint (Uint64 (BigMin r (uint (g div 2)))) = min r (uint g div 2)"
proof -
  have h: "uint (g div 2) = uint g div 2" by (simp add: uint_div)
  have m: "BigMin r (uint (g div 2)) = min r (uint g div 2)"
    by (simp add: BigMin_def h min_def)
  have nn: "0 \<le> min r (uint g div 2)" using assms by simp
  show "Uint64 (BigMin r (uint (g div 2))) = word_of_int (min r (uint g div 2))"
    using nn by (simp add: Uint64_def m)
  have "uint g div 2 \<le> uint g" using uint_ge_0 [of g] by arith
  then have "min r (uint g div 2) \<le> uint g" by simp
  moreover have "uint g < 2 ^ 64" using uint_lt2p [of g] by simp
  ultimately have "min r (uint g div 2) < 2 ^ 64" by linarith
  with nn show "uint (Uint64 (BigMin r (uint (g div 2)))) = min r (uint g div 2)"
    by (simp add: Uint64_def m uint_word_of_int take_bit_int_eq_self)
qed

lemma clauseStep_ok:
  assumes "i < length (vmOutputs ls)" and "receiptOutputs ls = Some outs" and "i < length outs"
  shows "\<exists>ls' stop. clauseStep vm rt tx origin cp clause i ls = Inr (ls', stop)"
proof -
  obtain out st' where
    "execute vm rt (ls_state ls) clause i (leftOverGas ls) origin (GasPrice tx) (ID tx) False
       = Inr (out, st')"
    using execute_nonstatic [of vm rt "ls_state ls" clause i "leftOverGas ls" origin
        "GasPrice tx" "ID tx"] by blast
  with assms show ?thesis
    by (auto simp: clauseStep_def setIndex_def Let_def)
qed

lemma clauseStep_effect:
  assumes "clauseStep vm rt tx origin cp clause i ls = Inr (ls', stop)"
  shows "\<exists>out st'.
           execute vm rt (ls_state ls) clause i (leftOverGas ls) origin (GasPrice tx) (ID tx)
             False = Inr (out, st') \<and>
           i < length (vmOutputs ls) \<and>
           vmOutputs ls' = (vmOutputs ls)[i := Some out] \<and>
           leftOverGas ls' =
             LeftOverGas out +
             Uint64 (BigMin (RefundGas out) (uint ((leftOverGas ls - LeftOverGas out) div 2))) \<and>
           (stop \<longleftrightarrow> VMErr out \<noteq> None) \<and>
           (stop \<longrightarrow> ls_state ls' = cp \<and> receiptOutputs ls' = None) \<and>
           (\<not> stop \<longrightarrow> ls_state ls' = st' \<and>
              (\<exists>outs. receiptOutputs ls = Some outs \<and> i < length outs \<and>
                 receiptOutputs ls' = Some (outs[i := Some \<lparr>Logs = Logs_vm out\<rparr>])))"
proof -
  obtain out st' where ex:
    "execute vm rt (ls_state ls) clause i (leftOverGas ls) origin (GasPrice tx) (ID tx) False
       = Inr (out, st')"
    using execute_nonstatic [of vm rt "ls_state ls" clause i "leftOverGas ls" origin
        "GasPrice tx" "ID tx"] by blast
  show ?thesis
  proof (cases "VMErr out \<noteq> None")
    case True
    with assms ex show ?thesis
      by (auto simp: clauseStep_def setIndex_def Let_def RevertTo_def split: if_splits)
  next
    case False
    with assms ex show ?thesis
      by (auto simp: clauseStep_def setIndex_def Let_def split: if_splits option.splits)
  qed
qed


lemma clauseStep_gas:
  assumes bounded: "leftOverBounded vm" and refund: "refundNonNegative vm"
    and step: "clauseStep vm rt tx origin cp clause i ls = Inr (ls', stop)"
  shows "leftOverGas ls' \<le> leftOverGas ls"
proof -
  from clauseStep_effect [OF step] obtain out st' where
    ex: "execute vm rt (ls_state ls) clause i (leftOverGas ls) origin (GasPrice tx) (ID tx)
           False = Inr (out, st')"
    and left: "leftOverGas ls' =
           LeftOverGas out +
           Uint64 (BigMin (RefundGas out) (uint ((leftOverGas ls - LeftOverGas out) div 2)))"
    by blast
  define g where "g = leftOverGas ls - LeftOverGas out"
  define w where "w = Uint64 (BigMin (RefundGas out) (uint (g div 2)))"
  have le: "LeftOverGas out \<le> leftOverGas ls"
    using execute_bounded [OF bounded ex] .
  have nn: "0 \<le> RefundGas out"
    using execute_refund [OF refund ex] .
  have ug: "uint g = uint (leftOverGas ls) - uint (LeftOverGas out)"
    using le by (simp add: g_def uint_sub_lem word_le_def)
  have uw: "uint w = min (RefundGas out) (uint g div 2)"
    using refund_word(2) [OF nn] by (simp add: w_def)
  have "uint g div 2 \<le> uint g" using uint_ge_0 [of g] by arith
  with uw have wle: "uint w \<le> uint g" by linarith
  have "uint (LeftOverGas out) + uint w \<le> uint (leftOverGas ls)"
    using wle ug by linarith
  moreover have "uint (leftOverGas ls) < 2 ^ 64"
    using uint_lt2p [of "leftOverGas ls"] by simp
  ultimately have "uint (LeftOverGas out) + uint w < 2 ^ LENGTH(64)" by simp
  then have "uint (LeftOverGas out + w) = uint (LeftOverGas out) + uint w"
    by (rule iffD1 [OF uint_add_lem])
  with wle ug have "uint (LeftOverGas out + w) \<le> uint (leftOverGas ls)" by linarith
  then show ?thesis by (simp add: left w_def g_def word_le_def)
qed

lemma clauseLoop_ok:
  assumes "length (vmOutputs ls) = i + length cs"
    and "receiptOutputs ls = Some outs" and "length outs = i + length cs"
  shows "\<exists>ls'. clauseLoop vm rt tx origin cp cs i ls = Inr ls'"
  using assms
proof (induction cs arbitrary: i ls outs)
  case Nil
  show ?case by simp
next
  case (Cons clause rest)
  have "i < length (vmOutputs ls)" and "i < length outs" using Cons.prems by simp_all
  with Cons.prems(2) obtain ls1 stop where
    step: "clauseStep vm rt tx origin cp clause i ls = Inr (ls1, stop)"
    using clauseStep_ok [of i ls outs vm rt tx origin cp clause] by blast
  show ?case
  proof (cases stop)
    case True
    with step show ?thesis by simp
  next
    case False
    from clauseStep_effect [OF step] False Cons.prems obtain out where
      v: "vmOutputs ls1 = (vmOutputs ls)[i := Some out]"
      and r: "receiptOutputs ls1 = Some (outs[i := Some \<lparr>Logs = Logs_vm out\<rparr>])"
      by auto
    have "length (vmOutputs ls1) = (i + 1) + length rest"
      using v Cons.prems(1) by simp
    moreover have "length (outs[i := Some \<lparr>Logs = Logs_vm out\<rparr>]) = (i + 1) + length rest"
      using Cons.prems(3) by simp
    ultimately obtain ls' where
      "clauseLoop vm rt tx origin cp rest (i + 1) ls1 = Inr ls'"
      using Cons.IH [OF _ r] by blast
    with step False show ?thesis by simp
  qed
qed

lemma clauseLoop_gas:
  assumes "leftOverBounded vm" and "refundNonNegative vm"
    and "clauseLoop vm rt tx origin cp cs i ls = Inr ls'"
  shows "leftOverGas ls' \<le> leftOverGas ls"
  using assms(3)
proof (induction cs arbitrary: i ls)
  case Nil
  then show ?case by simp
next
  case (Cons clause rest)
  from Cons.prems obtain ls1 stop where
    step: "clauseStep vm rt tx origin cp clause i ls = Inr (ls1, stop)"
    by (auto split: sum.splits)
  have g1: "leftOverGas ls1 \<le> leftOverGas ls"
    using clauseStep_gas [OF assms(1,2) step] .
  show ?case
  proof (cases stop)
    case True
    with step Cons.prems have "ls' = ls1" by simp
    with g1 show ?thesis by simp
  next
    case False
    with step Cons.prems have "clauseLoop vm rt tx origin cp rest (i + 1) ls1 = Inr ls'"
      by simp
    from Cons.IH [OF this] g1 show ?thesis by simp
  qed
qed


lemma clauseLoop_shape:
  assumes "clauseLoop vm rt tx origin cp cs i ls = Inr ls'"
  shows "\<exists>m. m \<le> length cs \<and>
           length (vmOutputs ls') = length (vmOutputs ls) \<and>
           (\<forall>j. j < i \<longrightarrow> vmOutputs ls' ! j = vmOutputs ls ! j) \<and>
           (\<forall>j. i + m \<le> j \<longrightarrow> vmOutputs ls' ! j = vmOutputs ls ! j) \<and>
           (\<forall>j. i \<le> j \<and> j < i + m \<longrightarrow>
              (\<exists>out. vmOutputs ls' ! j = Some out \<and>
                 (VMErr out \<noteq> None \<longrightarrow>
                    Suc j = i + m \<and> ls_state ls' = cp \<and> receiptOutputs ls' = None))) \<and>
           ((\<forall>j. i \<le> j \<and> j < i + m \<longrightarrow>
               (\<exists>out. vmOutputs ls' ! j = Some out \<and> VMErr out = None)) \<longrightarrow>
              m = length cs \<and> (receiptOutputs ls' = None \<longrightarrow> receiptOutputs ls = None))"
  using assms
proof (induction cs arbitrary: i ls)
  case Nil
  then have "ls' = ls" by simp
  then show ?case by (intro exI [of _ 0]) auto
next
  case (Cons clause rest)
  from Cons.prems obtain ls1 stop where
    step: "clauseStep vm rt tx origin cp clause i ls = Inr (ls1, stop)"
    by (auto split: sum.splits)
  from clauseStep_effect [OF step] obtain out where
    ilen: "i < length (vmOutputs ls)"
    and v: "vmOutputs ls1 = (vmOutputs ls)[i := Some out]"
    and stop_iff: "stop \<longleftrightarrow> VMErr out \<noteq> None"
    and stopped: "stop \<longrightarrow> ls_state ls1 = cp \<and> receiptOutputs ls1 = None"
    and went: "\<not> stop \<longrightarrow> (\<exists>outs. receiptOutputs ls = Some outs \<and>
                 receiptOutputs ls1 = Some (outs[i := Some \<lparr>Logs = Logs_vm out\<rparr>]))"
    by blast
  have at_i: "vmOutputs ls1 ! i = Some out" using v ilen by simp
  have other: "vmOutputs ls1 ! j = vmOutputs ls ! j" if "j \<noteq> i" for j
    using v that by simp
  show ?case
  proof (cases stop)
    case True
    with step Cons.prems have eq: "ls' = ls1" by simp
    have err: "VMErr out \<noteq> None" using True stop_iff by simp
    have c1: "1 \<le> length (clause # rest)" by simp
    have c2: "length (vmOutputs ls') = length (vmOutputs ls)" using eq v by simp
    have c4: "\<forall>j. j < i \<longrightarrow> vmOutputs ls' ! j = vmOutputs ls ! j"
      using eq other by simp
    have c5: "\<forall>j. i + 1 \<le> j \<longrightarrow> vmOutputs ls' ! j = vmOutputs ls ! j"
      using eq other by simp
    have c6: "\<forall>j. i \<le> j \<and> j < i + 1 \<longrightarrow>
              (\<exists>out. vmOutputs ls' ! j = Some out \<and>
                 (VMErr out \<noteq> None \<longrightarrow>
                    Suc j = i + 1 \<and> ls_state ls' = cp \<and> receiptOutputs ls' = None))"
    proof (intro allI impI)
      fix j assume "i \<le> j \<and> j < i + 1"
      then have "j = i" by simp
      then show "\<exists>out. vmOutputs ls' ! j = Some out \<and>
                 (VMErr out \<noteq> None \<longrightarrow>
                    Suc j = i + 1 \<and> ls_state ls' = cp \<and> receiptOutputs ls' = None)"
        using eq at_i stopped True by simp
    qed
    have c7: "(\<forall>j. i \<le> j \<and> j < i + 1 \<longrightarrow>
               (\<exists>out. vmOutputs ls' ! j = Some out \<and> VMErr out = None)) \<longrightarrow>
              1 = length (clause # rest) \<and>
              (receiptOutputs ls' = None \<longrightarrow> receiptOutputs ls = None)"
    proof
      assume "\<forall>j. i \<le> j \<and> j < i + 1 \<longrightarrow>
               (\<exists>out. vmOutputs ls' ! j = Some out \<and> VMErr out = None)"
      then have "\<exists>out. vmOutputs ls' ! i = Some out \<and> VMErr out = None" by simp
      with eq at_i err show "1 = length (clause # rest) \<and>
              (receiptOutputs ls' = None \<longrightarrow> receiptOutputs ls = None)" by simp
    qed
    show ?thesis
      by (rule exI [of _ 1]) (intro conjI; fact)
  next
    case False
    with step Cons.prems have rec: "clauseLoop vm rt tx origin cp rest (i + 1) ls1 = Inr ls'"
      by simp
    have noerr: "VMErr out = None" using False stop_iff by simp
    from False went have keep: "receiptOutputs ls1 \<noteq> None \<and> receiptOutputs ls \<noteq> None"
      by auto
    from Cons.IH [OF rec] obtain m where H:
      "m \<le> length rest \<and>
         length (vmOutputs ls') = length (vmOutputs ls1) \<and>
         (\<forall>j. j < i + 1 \<longrightarrow> vmOutputs ls' ! j = vmOutputs ls1 ! j) \<and>
         (\<forall>j. i + 1 + m \<le> j \<longrightarrow> vmOutputs ls' ! j = vmOutputs ls1 ! j) \<and>
         (\<forall>j. i + 1 \<le> j \<and> j < i + 1 + m \<longrightarrow>
              (\<exists>out. vmOutputs ls' ! j = Some out \<and>
                 (VMErr out \<noteq> None \<longrightarrow>
                    Suc j = i + 1 + m \<and> ls_state ls' = cp \<and> receiptOutputs ls' = None))) \<and>
         ((\<forall>j. i + 1 \<le> j \<and> j < i + 1 + m \<longrightarrow>
               (\<exists>out. vmOutputs ls' ! j = Some out \<and> VMErr out = None)) \<longrightarrow>
              m = length rest \<and> (receiptOutputs ls' = None \<longrightarrow> receiptOutputs ls1 = None))" ..
    have h1: "m \<le> length rest"
      using H by (elim conjE)
    have h2: "length (vmOutputs ls') = length (vmOutputs ls1)"
      using H by (elim conjE)
    have h4: "\<forall>j. j < i + 1 \<longrightarrow> vmOutputs ls' ! j = vmOutputs ls1 ! j"
      using H by (elim conjE)
    have h5: "\<forall>j. i + 1 + m \<le> j \<longrightarrow> vmOutputs ls' ! j = vmOutputs ls1 ! j"
      using H by (elim conjE)
    have h6: "\<forall>j. i + 1 \<le> j \<and> j < i + 1 + m \<longrightarrow>
              (\<exists>out. vmOutputs ls' ! j = Some out \<and>
                 (VMErr out \<noteq> None \<longrightarrow>
                    Suc j = i + 1 + m \<and> ls_state ls' = cp \<and> receiptOutputs ls' = None))"
      using H by (elim conjE)
    have h7: "(\<forall>j. i + 1 \<le> j \<and> j < i + 1 + m \<longrightarrow>
               (\<exists>out. vmOutputs ls' ! j = Some out \<and> VMErr out = None)) \<longrightarrow>
              m = length rest \<and> (receiptOutputs ls' = None \<longrightarrow> receiptOutputs ls1 = None)"
      using H by (elim conjE)
    have res_i: "vmOutputs ls' ! i = Some out" using h4 at_i by simp
    have c1: "Suc m \<le> length (clause # rest)" using h1 by simp
    have c2: "length (vmOutputs ls') = length (vmOutputs ls)" using h2 v by simp
    have c4: "\<forall>j. j < i \<longrightarrow> vmOutputs ls' ! j = vmOutputs ls ! j"
      using h4 other by simp
    have c5: "\<forall>j. i + Suc m \<le> j \<longrightarrow> vmOutputs ls' ! j = vmOutputs ls ! j"
      using h5 other by simp
    have c6: "\<forall>j. i \<le> j \<and> j < i + Suc m \<longrightarrow>
              (\<exists>out. vmOutputs ls' ! j = Some out \<and>
                 (VMErr out \<noteq> None \<longrightarrow>
                    Suc j = i + Suc m \<and> ls_state ls' = cp \<and> receiptOutputs ls' = None))"
    proof (intro allI impI)
      fix j assume j: "i \<le> j \<and> j < i + Suc m"
      show "\<exists>out. vmOutputs ls' ! j = Some out \<and>
                 (VMErr out \<noteq> None \<longrightarrow>
                    Suc j = i + Suc m \<and> ls_state ls' = cp \<and> receiptOutputs ls' = None)"
      proof (cases "j = i")
        case True
        with res_i noerr show ?thesis by simp
      next
        case False
        with j have "i + 1 \<le> j \<and> j < i + 1 + m" by simp
        with h6 show ?thesis by simp
      qed
    qed
    have c7: "(\<forall>j. i \<le> j \<and> j < i + Suc m \<longrightarrow>
               (\<exists>out. vmOutputs ls' ! j = Some out \<and> VMErr out = None)) \<longrightarrow>
              Suc m = length (clause # rest) \<and>
              (receiptOutputs ls' = None \<longrightarrow> receiptOutputs ls = None)"
    proof
      assume a: "\<forall>j. i \<le> j \<and> j < i + Suc m \<longrightarrow>
               (\<exists>out. vmOutputs ls' ! j = Some out \<and> VMErr out = None)"
      have "\<forall>j. i + 1 \<le> j \<and> j < i + 1 + m \<longrightarrow>
               (\<exists>out. vmOutputs ls' ! j = Some out \<and> VMErr out = None)"
        using a by simp
      with h7 have "m = length rest"
        and "receiptOutputs ls' = None \<longrightarrow> receiptOutputs ls1 = None" by blast+
      with keep show "Suc m = length (clause # rest) \<and>
              (receiptOutputs ls' = None \<longrightarrow> receiptOutputs ls = None)" by auto
    qed
    show ?thesis
      by (rule exI [of _ "Suc m"]) (intro conjI; fact)
  qed
qed


lemma ExecuteTransaction_run:
  assumes "Signer tx = Inr origin" and "IntrinsicGas tx = Inr ig" and "ig \<le> Gas tx"
    and "Consume energy st (blockTime rt) origin (commonTo (Clauses tx))
           (uint (Gas tx) * GasPrice tx) = ((payer, True), st1)"
  shows "\<exists>ls. clauseLoop vm rt tx origin st1 (Clauses tx) 0
                \<lparr>ls_state = st1, leftOverGas = Gas tx - ig,
                 receiptOutputs = Some (replicate (length (Clauses tx)) None),
                 vmOutputs = replicate (length (Clauses tx)) None\<rparr> = Inr ls \<and>
              ExecuteTransaction energy vm rt tx st =
                Inr ((Some \<lparr>GasUsed = Gas tx - leftOverGas ls, GasPayer = emptyAddress,
                            Reverted = False, Outputs = receiptOutputs ls\<rparr>,
                      Some (vmOutputs ls), None),
                     SetBalance energy (ls_state ls) (blockTime rt) payer
                       (GetBalance energy (ls_state ls) (blockTime rt) payer +
                        uint (leftOverGas ls) * GasPrice tx))"
proof -
  define ls0 :: "'a loopState" where
    "ls0 = \<lparr>ls_state = st1, leftOverGas = Gas tx - ig,
            receiptOutputs = Some (replicate (length (Clauses tx)) None),
            vmOutputs = replicate (length (Clauses tx)) None\<rparr>"
  have "length (vmOutputs ls0) = 0 + length (Clauses tx)"
    and "receiptOutputs ls0 = Some (replicate (length (Clauses tx)) None)"
    and "length (replicate (length (Clauses tx)) (None :: Output option)) = 0 + length (Clauses tx)"
    by (simp_all add: ls0_def)
  then obtain ls where loop: "clauseLoop vm rt tx origin st1 (Clauses tx) 0 ls0 = Inr ls"
    using clauseLoop_ok [of ls0 0 "Clauses tx" "replicate (length (Clauses tx)) None"
                            vm rt tx origin st1]
    by blast
  have nle: "\<not> Gas tx < ig" using assms(3) by simp
  have "ExecuteTransaction energy vm rt tx st =
          Inr ((Some \<lparr>GasUsed = Gas tx - leftOverGas ls, GasPayer = emptyAddress,
                      Reverted = False, Outputs = receiptOutputs ls\<rparr>,
                Some (vmOutputs ls), None),
               SetBalance energy (ls_state ls) (blockTime rt) payer
                 (GetBalance energy (ls_state ls) (blockTime rt) payer +
                  uint (leftOverGas ls) * GasPrice tx))"
    using assms(1,2,4) nle loop [unfolded ls0_def]
    by (simp add: ExecuteTransaction_def Let_def NewCheckpoint_def)
  with loop show ?thesis unfolding ls0_def by blast
qed

lemma ExecuteTransaction_noerr:
  assumes "ExecuteTransaction energy vm rt tx st = Inr ((receipt, outs, None), st')"
  shows "\<exists>origin ig payer st1.
           Signer tx = Inr origin \<and> IntrinsicGas tx = Inr ig \<and> ig \<le> Gas tx \<and>
           Consume energy st (blockTime rt) origin (commonTo (Clauses tx))
             (uint (Gas tx) * GasPrice tx) = ((payer, True), st1)"
proof (cases "Signer tx")
  case (Inl e)
  with assms show ?thesis by (simp add: ExecuteTransaction_def)
next
  case origin: (Inr origin)
  show ?thesis
  proof (cases "IntrinsicGas tx")
    case (Inl e)
    with assms origin show ?thesis by (simp add: ExecuteTransaction_def)
  next
    case ig: (Inr ig)
    show ?thesis
    proof (cases "Gas tx < ig")
      case True
      with assms origin ig show ?thesis by (simp add: ExecuteTransaction_def Let_def)
    next
      case False
      obtain payer ok st1 where
        c: "Consume energy st (blockTime rt) origin (commonTo (Clauses tx))
              (uint (Gas tx) * GasPrice tx) = ((payer, ok), st1)"
        by (metis surj_pair)
      have ok using assms origin ig False c
        by (cases ok) (simp_all add: ExecuteTransaction_def Let_def)
      with c origin ig False show ?thesis by simp
    qed
  qed
qed

section \<open>Facts about the small instance\<close>

lemma word_half_le: "(g :: u64) div 2 \<le> g"
proof -
  have "uint (g div 2) = uint g div 2" by (simp add: uint_div)
  moreover have "uint g div 2 \<le> uint g" using uint_ge_0 [of g] by arith
  ultimately show ?thesis by (simp add: word_le_def)
qed

lemma demoVM_bounded: "leftOverBounded demoVM"
  by (simp add: leftOverBounded_def demoVM_def demoOutput_def word_half_le)

lemma demoVM_refund: "refundNonNegative demoVM"
  by (simp add: refundNonNegative_def demoVM_def demoOutput_def)

lemma demo_Signer: "Signer (demoTx cs) = Inr 77"
  by (simp add: demoTx_def)

lemma demo_IntrinsicGas: "IntrinsicGas (demoTx cs) = Inr 100"
  by (simp add: demoTx_def)

lemma demo_Gas: "(100 :: u64) \<le> Gas (demoTx cs)"
  by (simp add: demoTx_def)

lemma demo_Consume:
  "Consume demoEnergy (10000, 0) (blockTime demoRuntime) 77 (commonTo (Clauses (demoTx cs)))
     (uint (Gas (demoTx cs)) * GasPrice (demoTx cs)) = ((77, True), (8000, 0))"
  by (simp add: demoEnergy_def demoTx_def)

lemma demo_Consume_fail:
  "Consume demoEnergy (10, 0) (blockTime demoRuntime) 77 (commonTo (Clauses (demoTx cs)))
     (uint (Gas (demoTx cs)) * GasPrice (demoTx cs)) = ((emptyAddress, False), (10, 0))"
  by (simp add: demoEnergy_def demoTx_def)

lemma demo_run_revert:
  "ExecuteTransaction demoEnergy demoVM demoRuntime (demoTx [okClause, badClause]) (10000, 0) =
     Inr ((Some \<lparr>GasUsed = 768, GasPayer = emptyAddress, Reverted = False, Outputs = None\<rparr>,
           Some [Some (demoOutput 7 [] 900), Some (demoOutput 7 [1] 455)], None),
          (8464, 0))"
  by (simp add: ExecuteTransaction_def clauseStep_def execute_def demoVM_def demoRuntime_def
        demoTx_def okClause_def badClause_def demoEnergy_def commonTo_def
        demoOutput_def setIndex_def Let_def BigMin_def Uint64_def NewCheckpoint_def RevertTo_def)

lemma demo_run_ok:
  "ExecuteTransaction demoEnergy demoVM demoRuntime (demoTx [okClause]) (10000, 0) =
     Inr ((Some \<lparr>GasUsed = 545, GasPayer = emptyAddress, Reverted = False,
                 Outputs = Some [Some \<lparr>Logs = Logs_vm (demoOutput 7 [] 900)\<rparr>]\<rparr>,
           Some [Some (demoOutput 7 [] 900)], None),
          (8910, 1))"
  by (simp add: ExecuteTransaction_def clauseStep_def execute_def demoVM_def demoRuntime_def
        demoTx_def okClause_def demoEnergy_def commonTo_def
        demoOutput_def setIndex_def Let_def BigMin_def Uint64_def NewCheckpoint_def)

lemma demo_step:
  "clauseStep demoVM demoRuntime (demoTx cs) 77 (8000, 0) okClause 0
     \<lparr>ls_state = (8000, 0), leftOverGas = 900, receiptOutputs = Some [None, None],
      vmOutputs = [None, None]\<rparr> =
   Inr (\<lparr>ls_state = (8000, 1), leftOverGas = 455,
         receiptOutputs = Some [Some \<lparr>Logs = Logs_vm (demoOutput 7 [] 900)\<rparr>, None],
         vmOutputs = [Some (demoOutput 7 [] 900), None]\<rparr>, False)"
  by (simp add: clauseStep_def execute_def demoVM_def demoRuntime_def demoTx_def okClause_def
        demoOutput_def setIndex_def Let_def BigMin_def Uint64_def)

section \<open>The claims about ExecuteTransaction\<close>

text \<open>
  C3. For a transaction that passes the checks before execution, and an interpreter that
  never reports more leftover gas than it was given (and never a negative refund),
  \<open>ExecuteTransaction\<close> returns a receipt whose \<open>GasUsed\<close> is the gas limit minus the
  leftover gas at the end of the clause loop, without wrap-around, so that
  \<open>0 \<le> GasUsed \<le> gas limit\<close>.
\<close>

theorem gas_conservation:
  assumes "leftOverBounded vm" and "refundNonNegative vm"
    and "Signer tx = Inr origin" and "IntrinsicGas tx = Inr ig" and "ig \<le> Gas tx"
    and "Consume energy st (blockTime rt) origin (commonTo (Clauses tx))
           (uint (Gas tx) * GasPrice tx) = ((payer, True), st1)"
  shows "\<exists>receipt outs st' ls.
           ExecuteTransaction energy vm rt tx st = Inr ((Some receipt, Some outs, None), st') \<and>
           clauseLoop vm rt tx origin st1 (Clauses tx) 0
             \<lparr>ls_state = st1, leftOverGas = Gas tx - ig,
              receiptOutputs = Some (replicate (length (Clauses tx)) None),
              vmOutputs = replicate (length (Clauses tx)) None\<rparr> = Inr ls \<and>
           GasUsed receipt = Gas tx - leftOverGas ls \<and>
           uint (GasUsed receipt) = uint (Gas tx) - uint (leftOverGas ls) \<and>
           0 \<le> uint (GasUsed receipt) \<and>
           uint (GasUsed receipt) \<le> uint (Gas tx)"
proof -
  from ExecuteTransaction_run [OF assms(3-6), of vm] obtain ls where
    loop: "clauseLoop vm rt tx origin st1 (Clauses tx) 0
             \<lparr>ls_state = st1, leftOverGas = Gas tx - ig,
              receiptOutputs = Some (replicate (length (Clauses tx)) None),
              vmOutputs = replicate (length (Clauses tx)) None\<rparr> = Inr ls"
    and run: "ExecuteTransaction energy vm rt tx st =
                Inr ((Some \<lparr>GasUsed = Gas tx - leftOverGas ls, GasPayer = emptyAddress,
                            Reverted = False, Outputs = receiptOutputs ls\<rparr>,
                      Some (vmOutputs ls), None),
                     SetBalance energy (ls_state ls) (blockTime rt) payer
                       (GetBalance energy (ls_state ls) (blockTime rt) payer +
                        uint (leftOverGas ls) * GasPrice tx))"
    by blast
  have "leftOverGas ls \<le> Gas tx - ig"
    using clauseLoop_gas [OF assms(1,2) loop] by simp
  moreover have "Gas tx - ig \<le> Gas tx"
    using assms(5) by (simp add: word_sub_le)
  ultimately have le: "leftOverGas ls \<le> Gas tx" by simp
  then have u: "uint (Gas tx - leftOverGas ls) = uint (Gas tx) - uint (leftOverGas ls)"
    by (simp add: uint_sub_lem word_le_def)
  have "0 \<le> uint (leftOverGas ls)" by simp
  with u have "uint (Gas tx - leftOverGas ls) \<le> uint (Gas tx)" by linarith
  with run loop u show ?thesis by simp
qed

theorem gas_conservation_witness:
  "\<exists>receipt outs st' ls.
     ExecuteTransaction demoEnergy demoVM demoRuntime (demoTx [okClause, badClause]) (10000, 0)
       = Inr ((Some receipt, Some outs, None), st') \<and>
     clauseLoop demoVM demoRuntime (demoTx [okClause, badClause]) 77 (8000, 0)
       (Clauses (demoTx [okClause, badClause])) 0
       \<lparr>ls_state = (8000, 0), leftOverGas = Gas (demoTx [okClause, badClause]) - 100,
        receiptOutputs = Some (replicate (length (Clauses (demoTx [okClause, badClause]))) None),
        vmOutputs = replicate (length (Clauses (demoTx [okClause, badClause]))) None\<rparr> = Inr ls \<and>
     GasUsed receipt = Gas (demoTx [okClause, badClause]) - leftOverGas ls \<and>
     uint (GasUsed receipt) = uint (Gas (demoTx [okClause, badClause])) - uint (leftOverGas ls) \<and>
     0 \<le> uint (GasUsed receipt) \<and>
     uint (GasUsed receipt) \<le> uint (Gas (demoTx [okClause, badClause]))"
  by (rule gas_conservation [OF demoVM_bounded demoVM_refund demo_Signer demo_IntrinsicGas
        demo_Gas demo_Consume])

text \<open>
  C4. Once the checks before execution have passed, \<open>ExecuteTransaction\<close> calls the
  energy contract's \<open>Consume\<close> with the amount \<open>gas limit * gas price\<close> on the state
  it was given, and the clause loop starts from the state \<open>Consume\<close> leaves. Whatever the
  loop does, the final state is the loop's state with the balance of the payer that
  \<open>Consume\<close> returned raised by \<open>leftover gas * gas price\<close>. The amount consumed minus
  the amount returned is \<open>GasUsed * gas price\<close>.
\<close>

theorem energy_settlement:
  assumes "leftOverBounded vm" and "refundNonNegative vm"
    and "Signer tx = Inr origin" and "IntrinsicGas tx = Inr ig" and "ig \<le> Gas tx"
    and "Consume energy st (blockTime rt) origin (commonTo (Clauses tx))
           (uint (Gas tx) * GasPrice tx) = ((payer, True), st1)"
  shows "\<exists>receipt outs ls.
           clauseLoop vm rt tx origin st1 (Clauses tx) 0
             \<lparr>ls_state = st1, leftOverGas = Gas tx - ig,
              receiptOutputs = Some (replicate (length (Clauses tx)) None),
              vmOutputs = replicate (length (Clauses tx)) None\<rparr> = Inr ls \<and>
           ExecuteTransaction energy vm rt tx st =
             Inr ((Some receipt, Some outs, None),
                  SetBalance energy (ls_state ls) (blockTime rt) payer
                    (GetBalance energy (ls_state ls) (blockTime rt) payer +
                     uint (leftOverGas ls) * GasPrice tx)) \<and>
           uint (Gas tx) * GasPrice tx - uint (leftOverGas ls) * GasPrice tx =
             uint (GasUsed receipt) * GasPrice tx"
proof -
  from ExecuteTransaction_run [OF assms(3-6), of vm] obtain ls where
    loop: "clauseLoop vm rt tx origin st1 (Clauses tx) 0
             \<lparr>ls_state = st1, leftOverGas = Gas tx - ig,
              receiptOutputs = Some (replicate (length (Clauses tx)) None),
              vmOutputs = replicate (length (Clauses tx)) None\<rparr> = Inr ls"
    and run: "ExecuteTransaction energy vm rt tx st =
                Inr ((Some \<lparr>GasUsed = Gas tx - leftOverGas ls, GasPayer = emptyAddress,
                            Reverted = False, Outputs = receiptOutputs ls\<rparr>,
                      Some (vmOutputs ls), None),
                     SetBalance energy (ls_state ls) (blockTime rt) payer
                       (GetBalance energy (ls_state ls) (blockTime rt) payer +
                        uint (leftOverGas ls) * GasPrice tx))"
    by blast
  have "leftOverGas ls \<le> Gas tx - ig"
    using clauseLoop_gas [OF assms(1,2) loop] by simp
  moreover have "Gas tx - ig \<le> Gas tx"
    using assms(5) by (simp add: word_sub_le)
  ultimately have le: "leftOverGas ls \<le> Gas tx" by simp
  then have u: "uint (Gas tx - leftOverGas ls) = uint (Gas tx) - uint (leftOverGas ls)"
    by (simp add: uint_sub_lem word_le_def)
  have "uint (Gas tx) * GasPrice tx - uint (leftOverGas ls) * GasPrice tx =
          uint (Gas tx - leftOverGas ls) * GasPrice tx"
    by (simp add: u left_diff_distrib)
  with run loop show ?thesis by simp
qed

theorem energy_settlement_witness:
  "\<exists>receipt outs ls.
     clauseLoop demoVM demoRuntime (demoTx [okClause, badClause]) 77 (8000, 0)
       (Clauses (demoTx [okClause, badClause])) 0
       \<lparr>ls_state = (8000, 0), leftOverGas = Gas (demoTx [okClause, badClause]) - 100,
        receiptOutputs = Some (replicate (length (Clauses (demoTx [okClause, badClause]))) None),
        vmOutputs = replicate (length (Clauses (demoTx [okClause, badClause]))) None\<rparr> = Inr ls \<and>
     ExecuteTransaction demoEnergy demoVM demoRuntime (demoTx [okClause, badClause]) (10000, 0) =
       Inr ((Some receipt, Some outs, None),
            SetBalance demoEnergy (ls_state ls) (blockTime demoRuntime) 77
              (GetBalance demoEnergy (ls_state ls) (blockTime demoRuntime) 77 +
               uint (leftOverGas ls) * GasPrice (demoTx [okClause, badClause]))) \<and>
     uint (Gas (demoTx [okClause, badClause])) * GasPrice (demoTx [okClause, badClause]) -
       uint (leftOverGas ls) * GasPrice (demoTx [okClause, badClause]) =
       uint (GasUsed receipt) * GasPrice (demoTx [okClause, badClause])"
  by (rule energy_settlement [OF demoVM_bounded demoVM_refund demo_Signer demo_IntrinsicGas
        demo_Gas demo_Consume])

text \<open>
  C10. When \<open>ExecuteTransaction\<close> returns without error, the slice of raw outputs has one
  entry per clause. The first \<open>m\<close> entries, those of the clauses that were executed, are
  not nil, and only the last of them can carry an error; the entries after them are nil,
  and there are such entries only when the last executed clause failed.
\<close>

theorem vmOutputs_shape:
  assumes "ExecuteTransaction energy vm rt tx st = Inr ((receipt, outs, None), st')"
  shows "\<exists>vs m. outs = Some vs \<and> length vs = length (Clauses tx) \<and> m \<le> length vs \<and>
           (\<forall>j. j < m \<longrightarrow> (\<exists>out. vs ! j = Some out \<and> (VMErr out \<noteq> None \<longrightarrow> Suc j = m))) \<and>
           (\<forall>j. m \<le> j \<and> j < length vs \<longrightarrow> vs ! j = None) \<and>
           (m < length vs \<longrightarrow> (\<exists>out. 0 < m \<and> vs ! (m - 1) = Some out \<and> VMErr out \<noteq> None))"
proof -
  from ExecuteTransaction_noerr [OF assms] obtain origin ig payer st1 where
    pre: "Signer tx = Inr origin" "IntrinsicGas tx = Inr ig" "ig \<le> Gas tx"
      "Consume energy st (blockTime rt) origin (commonTo (Clauses tx))
         (uint (Gas tx) * GasPrice tx) = ((payer, True), st1)"
    by blast
  define ls0 :: "'a loopState" where
    "ls0 = \<lparr>ls_state = st1, leftOverGas = Gas tx - ig,
            receiptOutputs = Some (replicate (length (Clauses tx)) None),
            vmOutputs = replicate (length (Clauses tx)) None\<rparr>"
  from ExecuteTransaction_run [OF pre, of vm] obtain ls where
    loop: "clauseLoop vm rt tx origin st1 (Clauses tx) 0 ls0 = Inr ls"
    and run: "ExecuteTransaction energy vm rt tx st =
                Inr ((Some \<lparr>GasUsed = Gas tx - leftOverGas ls, GasPayer = emptyAddress,
                            Reverted = False, Outputs = receiptOutputs ls\<rparr>,
                      Some (vmOutputs ls), None),
                     SetBalance energy (ls_state ls) (blockTime rt) payer
                       (GetBalance energy (ls_state ls) (blockTime rt) payer +
                        uint (leftOverGas ls) * GasPrice tx))"
    unfolding ls0_def by blast
  from run assms have outs: "outs = Some (vmOutputs ls)" by simp
  from clauseLoop_shape [OF loop] obtain m where H:
    "m \<le> length (Clauses tx) \<and>
     length (vmOutputs ls) = length (vmOutputs ls0) \<and>
     (\<forall>j. j < 0 \<longrightarrow> vmOutputs ls ! j = vmOutputs ls0 ! j) \<and>
     (\<forall>j. 0 + m \<le> j \<longrightarrow> vmOutputs ls ! j = vmOutputs ls0 ! j) \<and>
     (\<forall>j. 0 \<le> j \<and> j < 0 + m \<longrightarrow>
          (\<exists>out. vmOutputs ls ! j = Some out \<and>
             (VMErr out \<noteq> None \<longrightarrow>
                Suc j = 0 + m \<and> ls_state ls = st1 \<and> receiptOutputs ls = None))) \<and>
     ((\<forall>j. 0 \<le> j \<and> j < 0 + m \<longrightarrow>
           (\<exists>out. vmOutputs ls ! j = Some out \<and> VMErr out = None)) \<longrightarrow>
          m = length (Clauses tx) \<and> (receiptOutputs ls = None \<longrightarrow> receiptOutputs ls0 = None))" ..
  have h1: "m \<le> length (Clauses tx)" using H by (elim conjE)
  have h2: "length (vmOutputs ls) = length (vmOutputs ls0)" using H by (elim conjE)
  have h5: "\<forall>j. 0 + m \<le> j \<longrightarrow> vmOutputs ls ! j = vmOutputs ls0 ! j"
    using H by (elim conjE)
  have h6: "\<forall>j. 0 \<le> j \<and> j < 0 + m \<longrightarrow>
          (\<exists>out. vmOutputs ls ! j = Some out \<and>
             (VMErr out \<noteq> None \<longrightarrow>
                Suc j = 0 + m \<and> ls_state ls = st1 \<and> receiptOutputs ls = None))"
    using H by (elim conjE)
  have h7: "(\<forall>j. 0 \<le> j \<and> j < 0 + m \<longrightarrow>
           (\<exists>out. vmOutputs ls ! j = Some out \<and> VMErr out = None)) \<longrightarrow>
          m = length (Clauses tx) \<and> (receiptOutputs ls = None \<longrightarrow> receiptOutputs ls0 = None)"
    using H by (elim conjE)
  have len: "length (vmOutputs ls) = length (Clauses tx)"
    using h2 by (simp add: ls0_def)
  have c1: "m \<le> length (vmOutputs ls)" using h1 len by simp
  have c2: "\<forall>j. j < m \<longrightarrow>
              (\<exists>out. vmOutputs ls ! j = Some out \<and> (VMErr out \<noteq> None \<longrightarrow> Suc j = m))"
  proof (intro allI impI)
    fix j assume "j < m"
    then have "0 \<le> j \<and> j < 0 + m" by simp
    with h6 obtain out where "vmOutputs ls ! j = Some out"
      and "VMErr out \<noteq> None \<longrightarrow> Suc j = 0 + m" by blast
    then show "\<exists>out. vmOutputs ls ! j = Some out \<and> (VMErr out \<noteq> None \<longrightarrow> Suc j = m)"
      by simp
  qed
  have c3: "\<forall>j. m \<le> j \<and> j < length (vmOutputs ls) \<longrightarrow> vmOutputs ls ! j = None"
  proof (intro allI impI)
    fix j assume j: "m \<le> j \<and> j < length (vmOutputs ls)"
    then have "vmOutputs ls ! j = vmOutputs ls0 ! j" using h5 by simp
    also have "\<dots> = None" using j len by (simp add: ls0_def)
    finally show "vmOutputs ls ! j = None" .
  qed
  have c4: "m < length (vmOutputs ls) \<longrightarrow>
              (\<exists>out. 0 < m \<and> vmOutputs ls ! (m - 1) = Some out \<and> VMErr out \<noteq> None)"
  proof
    assume "m < length (vmOutputs ls)"
    then have "m \<noteq> length (Clauses tx)" using len by simp
    with h7 have "\<not> (\<forall>j. 0 \<le> j \<and> j < 0 + m \<longrightarrow>
           (\<exists>out. vmOutputs ls ! j = Some out \<and> VMErr out = None))" by blast
    then obtain j where j: "j < m"
      and none: "\<not> (\<exists>out. vmOutputs ls ! j = Some out \<and> VMErr out = None)" by auto
    from c2 j obtain out where o: "vmOutputs ls ! j = Some out"
      and last: "VMErr out \<noteq> None \<longrightarrow> Suc j = m" by blast
    from none o have err: "VMErr out \<noteq> None" by simp
    with last have "Suc j = m" by simp
    then have "0 < m" and "m - 1 = j" by simp_all
    with o err show "\<exists>out. 0 < m \<and> vmOutputs ls ! (m - 1) = Some out \<and> VMErr out \<noteq> None"
      by simp
  qed
  show ?thesis
    by (rule exI [of _ "vmOutputs ls"], rule exI [of _ m]) (intro conjI; fact)
qed

theorem vmOutputs_shape_witness:
  "\<exists>vs m. Some [Some (demoOutput 7 [] 900), Some (demoOutput 7 [1] 455)] = Some vs \<and>
     length vs = length (Clauses (demoTx [okClause, badClause])) \<and> m \<le> length vs \<and>
     (\<forall>j. j < m \<longrightarrow> (\<exists>out. vs ! j = Some out \<and> (VMErr out \<noteq> None \<longrightarrow> Suc j = m))) \<and>
     (\<forall>j. m \<le> j \<and> j < length vs \<longrightarrow> vs ! j = None) \<and>
     (m < length vs \<longrightarrow> (\<exists>out. 0 < m \<and> vs ! (m - 1) = Some out \<and> VMErr out \<noteq> None))"
  by (rule vmOutputs_shape [OF demo_run_revert])

text \<open>
  C1. Suppose the checks before execution pass and the energy contract's \<open>Consume\<close>
  leaves the state \<open>st1\<close>, which is the state the checkpoint records. If the raw output
  of clause \<open>k\<close> carries an error, then the state \<open>ExecuteTransaction\<close> leaves is \<open>st1\<close>
  with only the settlement written to it (no write of the clauses \<open>0..k\<close> remains), the
  receipt's \<open>Outputs\<close> is nil, and every clause after \<open>k\<close> has a nil raw output, that is,
  was not executed.
\<close>

theorem atomic_rollback:
  assumes "Signer tx = Inr origin" and "IntrinsicGas tx = Inr ig" and "ig \<le> Gas tx"
    and "Consume energy st (blockTime rt) origin (commonTo (Clauses tx))
           (uint (Gas tx) * GasPrice tx) = ((payer, True), st1)"
    and "ExecuteTransaction energy vm rt tx st = Inr ((Some receipt, Some outs, err), st')"
    and "k < length outs" and "outs ! k = Some out" and "VMErr out \<noteq> None"
  shows "st' = SetBalance energy st1 (blockTime rt) payer
                 (GetBalance energy st1 (blockTime rt) payer +
                  uint (Gas tx - GasUsed receipt) * GasPrice tx) \<and>
         Outputs receipt = None \<and>
         (\<forall>j. k < j \<and> j < length outs \<longrightarrow> outs ! j = None)"
proof -
  define ls0 :: "'a loopState" where
    "ls0 = \<lparr>ls_state = st1, leftOverGas = Gas tx - ig,
            receiptOutputs = Some (replicate (length (Clauses tx)) None),
            vmOutputs = replicate (length (Clauses tx)) None\<rparr>"
  from ExecuteTransaction_run [OF assms(1-4), of vm] obtain ls where
    loop: "clauseLoop vm rt tx origin st1 (Clauses tx) 0 ls0 = Inr ls"
    and run: "ExecuteTransaction energy vm rt tx st =
                Inr ((Some \<lparr>GasUsed = Gas tx - leftOverGas ls, GasPayer = emptyAddress,
                            Reverted = False, Outputs = receiptOutputs ls\<rparr>,
                      Some (vmOutputs ls), None),
                     SetBalance energy (ls_state ls) (blockTime rt) payer
                       (GetBalance energy (ls_state ls) (blockTime rt) payer +
                        uint (leftOverGas ls) * GasPrice tx))"
    unfolding ls0_def by blast
  from run assms(5) have outs: "outs = vmOutputs ls"
    and rcpt: "receipt = \<lparr>GasUsed = Gas tx - leftOverGas ls, GasPayer = emptyAddress,
                          Reverted = False, Outputs = receiptOutputs ls\<rparr>"
    and st': "st' = SetBalance energy (ls_state ls) (blockTime rt) payer
                       (GetBalance energy (ls_state ls) (blockTime rt) payer +
                        uint (leftOverGas ls) * GasPrice tx)"
    by simp_all
  from clauseLoop_shape [OF loop] obtain m where H:
    "m \<le> length (Clauses tx) \<and>
     length (vmOutputs ls) = length (vmOutputs ls0) \<and>
     (\<forall>j. j < 0 \<longrightarrow> vmOutputs ls ! j = vmOutputs ls0 ! j) \<and>
     (\<forall>j. 0 + m \<le> j \<longrightarrow> vmOutputs ls ! j = vmOutputs ls0 ! j) \<and>
     (\<forall>j. 0 \<le> j \<and> j < 0 + m \<longrightarrow>
          (\<exists>out. vmOutputs ls ! j = Some out \<and>
             (VMErr out \<noteq> None \<longrightarrow>
                Suc j = 0 + m \<and> ls_state ls = st1 \<and> receiptOutputs ls = None))) \<and>
     ((\<forall>j. 0 \<le> j \<and> j < 0 + m \<longrightarrow>
           (\<exists>out. vmOutputs ls ! j = Some out \<and> VMErr out = None)) \<longrightarrow>
          m = length (Clauses tx) \<and> (receiptOutputs ls = None \<longrightarrow> receiptOutputs ls0 = None))" ..
  have h2: "length (vmOutputs ls) = length (vmOutputs ls0)" using H by (elim conjE)
  have h5: "\<forall>j. 0 + m \<le> j \<longrightarrow> vmOutputs ls ! j = vmOutputs ls0 ! j"
    using H by (elim conjE)
  have h6: "\<forall>j. 0 \<le> j \<and> j < 0 + m \<longrightarrow>
          (\<exists>out. vmOutputs ls ! j = Some out \<and>
             (VMErr out \<noteq> None \<longrightarrow>
                Suc j = 0 + m \<and> ls_state ls = st1 \<and> receiptOutputs ls = None))"
    using H by (elim conjE)
  have len: "length (vmOutputs ls) = length (Clauses tx)"
    using h2 by (simp add: ls0_def)
  have nil_after: "vmOutputs ls ! j = None" if "m \<le> j" and "j < length (vmOutputs ls)" for j
  proof -
    have "vmOutputs ls ! j = vmOutputs ls0 ! j" using h5 that(1) by simp
    also have "\<dots> = None" using that(2) len by (simp add: ls0_def)
    finally show ?thesis .
  qed
  have "k < m"
  proof (rule ccontr)
    assume "\<not> k < m"
    then have "vmOutputs ls ! k = None" using nil_after assms(6) outs by simp
    with assms(7) outs show False by simp
  qed
  then have "0 \<le> k \<and> k < 0 + m" by simp
  with h6 obtain out' where "vmOutputs ls ! k = Some out'"
    and last: "VMErr out' \<noteq> None \<longrightarrow>
                 Suc k = 0 + m \<and> ls_state ls = st1 \<and> receiptOutputs ls = None"
    by blast
  with assms(7) outs have "out' = out" by simp
  with last assms(8) have km: "Suc k = m" and st: "ls_state ls = st1"
    and ro: "receiptOutputs ls = None" by simp_all
  have w: "Gas tx - (Gas tx - leftOverGas ls) = leftOverGas ls" by simp
  have g1: "st' = SetBalance energy st1 (blockTime rt) payer
                 (GetBalance energy st1 (blockTime rt) payer +
                  uint (Gas tx - GasUsed receipt) * GasPrice tx)"
    using st' st by (simp add: rcpt w)
  have g2: "Outputs receipt = None" using ro by (simp add: rcpt)
  have g3: "\<forall>j. k < j \<and> j < length outs \<longrightarrow> outs ! j = None"
    using nil_after km outs by auto
  from g1 g2 g3 show ?thesis by blast
qed

theorem atomic_rollback_witness:
  "(8464, 0) = SetBalance demoEnergy (8000, 0) (blockTime demoRuntime) 77
                 (GetBalance demoEnergy (8000, 0) (blockTime demoRuntime) 77 +
                  uint (Gas (demoTx [okClause, badClause]) -
                        GasUsed \<lparr>GasUsed = 768, GasPayer = emptyAddress, Reverted = False,
                                 Outputs = None\<rparr>) *
                  GasPrice (demoTx [okClause, badClause])) \<and>
   Outputs \<lparr>GasUsed = 768, GasPayer = emptyAddress, Reverted = False, Outputs = None\<rparr> = None"
proof -
  have k: "1 < length [Some (demoOutput 7 [] 900), Some (demoOutput 7 [1] 455)]" by simp
  have o: "[Some (demoOutput 7 [] 900), Some (demoOutput 7 [1] 455)] ! 1
             = Some (demoOutput 7 [1] 455)" by simp
  have e: "VMErr (demoOutput 7 [1] 455) \<noteq> None" by (simp add: demoOutput_def)
  from atomic_rollback [OF demo_Signer demo_IntrinsicGas demo_Gas demo_Consume demo_run_revert
        k o e]
  show ?thesis by blast
qed

text \<open>
  C8. \<open>ExecuteTransaction\<close> returns a nil receipt, nil outputs and an error when signature
  recovery fails (the error of \<open>Signer\<close>), when the intrinsic gas cannot be computed (the
  error of \<open>IntrinsicGas\<close>), when the intrinsic gas exceeds the gas limit, and when the
  energy contract's \<open>Consume\<close> reports failure. In the first three cases the state is the
  one it was given; in the last it is the state \<open>Consume\<close> left, since
  \<open>ExecuteTransaction\<close> writes nothing itself before the clause loop. The two errors it
  creates differ, and when all checks pass it returns a receipt and no error.
\<close>

theorem precheck_rejection:
  "(Signer tx = Inl e \<longrightarrow>
      ExecuteTransaction energy vm rt tx st = Inr ((None, None, Some e), st)) \<and>
   (Signer tx = Inr origin \<and> IntrinsicGas tx = Inl e \<longrightarrow>
      ExecuteTransaction energy vm rt tx st = Inr ((None, None, Some e), st)) \<and>
   (Signer tx = Inr origin \<and> IntrinsicGas tx = Inr ig \<and> ig > Gas tx \<longrightarrow>
      ExecuteTransaction energy vm rt tx st =
        Inr ((None, None, Some (errors_New ''intrinsic gas exceeds provided gas'')), st)) \<and>
   (Signer tx = Inr origin \<and> IntrinsicGas tx = Inr ig \<and> ig \<le> Gas tx \<and>
    Consume energy st (blockTime rt) origin (commonTo (Clauses tx))
      (uint (Gas tx) * GasPrice tx) = ((payer, False), st1) \<longrightarrow>
      ExecuteTransaction energy vm rt tx st =
        Inr ((None, None, Some (errors_New ''insufficient energy'')), st1)) \<and>
   errors_New ''intrinsic gas exceeds provided gas'' \<noteq> errors_New ''insufficient energy'' \<and>
   (Signer tx = Inr origin \<and> IntrinsicGas tx = Inr ig \<and> ig \<le> Gas tx \<and>
    Consume energy st (blockTime rt) origin (commonTo (Clauses tx))
      (uint (Gas tx) * GasPrice tx) = ((payer, True), st1) \<longrightarrow>
      (\<exists>receipt outs st'.
         ExecuteTransaction energy vm rt tx st = Inr ((Some receipt, Some outs, None), st')))"
proof (intro conjI impI)
  assume "Signer tx = Inl e"
  then show "ExecuteTransaction energy vm rt tx st = Inr ((None, None, Some e), st)"
    by (simp add: ExecuteTransaction_def)
next
  assume "Signer tx = Inr origin \<and> IntrinsicGas tx = Inl e"
  then show "ExecuteTransaction energy vm rt tx st = Inr ((None, None, Some e), st)"
    by (simp add: ExecuteTransaction_def)
next
  assume "Signer tx = Inr origin \<and> IntrinsicGas tx = Inr ig \<and> ig > Gas tx"
  then show "ExecuteTransaction energy vm rt tx st =
        Inr ((None, None, Some (errors_New ''intrinsic gas exceeds provided gas'')), st)"
    by (simp add: ExecuteTransaction_def Let_def)
next
  assume a: "Signer tx = Inr origin \<and> IntrinsicGas tx = Inr ig \<and> ig \<le> Gas tx \<and>
    Consume energy st (blockTime rt) origin (commonTo (Clauses tx))
      (uint (Gas tx) * GasPrice tx) = ((payer, False), st1)"
  then have "ig \<le> Gas tx" by blast
  then have "\<not> Gas tx < ig" by simp
  with a show "ExecuteTransaction energy vm rt tx st =
        Inr ((None, None, Some (errors_New ''insufficient energy'')), st1)"
    by (simp add: ExecuteTransaction_def Let_def)
next
  show "errors_New ''intrinsic gas exceeds provided gas'' \<noteq> errors_New ''insufficient energy''"
    by simp
next
  assume a: "Signer tx = Inr origin \<and> IntrinsicGas tx = Inr ig \<and> ig \<le> Gas tx \<and>
    Consume energy st (blockTime rt) origin (commonTo (Clauses tx))
      (uint (Gas tx) * GasPrice tx) = ((payer, True), st1)"
  then have "Signer tx = Inr origin" "IntrinsicGas tx = Inr ig" "ig \<le> Gas tx"
    "Consume energy st (blockTime rt) origin (commonTo (Clauses tx))
      (uint (Gas tx) * GasPrice tx) = ((payer, True), st1)" by simp_all
  from ExecuteTransaction_run [OF this, of vm]
  show "\<exists>receipt outs st'.
         ExecuteTransaction energy vm rt tx st = Inr ((Some receipt, Some outs, None), st')"
    by blast
qed

theorem precheck_rejection_witness:
  "ExecuteTransaction demoEnergy demoVM demoRuntime
     ((demoTx [okClause])\<lparr>Signer := Inl (errors_New ''invalid signature'')\<rparr>) (10000, 0) =
     Inr ((None, None, Some (errors_New ''invalid signature'')), (10000, 0)) \<and>
   ExecuteTransaction demoEnergy demoVM demoRuntime
     ((demoTx [okClause])\<lparr>IntrinsicGas := Inl (errors_New ''payload too large'')\<rparr>) (10000, 0) =
     Inr ((None, None, Some (errors_New ''payload too large'')), (10000, 0)) \<and>
   ExecuteTransaction demoEnergy demoVM demoRuntime
     ((demoTx [okClause])\<lparr>IntrinsicGas := Inr 1001\<rparr>) (10000, 0) =
     Inr ((None, None, Some (errors_New ''intrinsic gas exceeds provided gas'')), (10000, 0)) \<and>
   ExecuteTransaction demoEnergy demoVM demoRuntime (demoTx [okClause]) (10, 0) =
     Inr ((None, None, Some (errors_New ''insufficient energy'')), (10, 0)) \<and>
   (\<exists>receipt outs st'.
      ExecuteTransaction demoEnergy demoVM demoRuntime (demoTx [okClause]) (10000, 0) =
        Inr ((Some receipt, Some outs, None), st'))"
proof (intro conjI)
  define t1 where "t1 = (demoTx [okClause])\<lparr>Signer := Inl (errors_New ''invalid signature'')\<rparr>"
  have "Signer t1 = Inl (errors_New ''invalid signature'')" by (simp add: t1_def)
  with precheck_rejection [of t1 "errors_New ''invalid signature''" demoEnergy demoVM
      demoRuntime "(10000, 0)"]
  show "ExecuteTransaction demoEnergy demoVM demoRuntime
     ((demoTx [okClause])\<lparr>Signer := Inl (errors_New ''invalid signature'')\<rparr>) (10000, 0) =
     Inr ((None, None, Some (errors_New ''invalid signature'')), (10000, 0))"
    unfolding t1_def by blast
next
  define t2 where
    "t2 = (demoTx [okClause])\<lparr>IntrinsicGas := Inl (errors_New ''payload too large'')\<rparr>"
  have "Signer t2 = Inr 77 \<and> IntrinsicGas t2 = Inl (errors_New ''payload too large'')"
    by (simp add: t2_def demoTx_def)
  with precheck_rejection [of t2 "errors_New ''payload too large''" demoEnergy demoVM
      demoRuntime "(10000, 0)" 77]
  show "ExecuteTransaction demoEnergy demoVM demoRuntime
     ((demoTx [okClause])\<lparr>IntrinsicGas := Inl (errors_New ''payload too large'')\<rparr>) (10000, 0) =
     Inr ((None, None, Some (errors_New ''payload too large'')), (10000, 0))"
    unfolding t2_def by blast
next
  define t3 where "t3 = (demoTx [okClause])\<lparr>IntrinsicGas := Inr 1001\<rparr>"
  have "Signer t3 = Inr 77 \<and> IntrinsicGas t3 = Inr 1001 \<and> 1001 > Gas t3"
    by (simp add: t3_def demoTx_def)
  with precheck_rejection [of t3 _ demoEnergy demoVM demoRuntime "(10000, 0)" 77 1001]
  show "ExecuteTransaction demoEnergy demoVM demoRuntime
     ((demoTx [okClause])\<lparr>IntrinsicGas := Inr 1001\<rparr>) (10000, 0) =
     Inr ((None, None, Some (errors_New ''intrinsic gas exceeds provided gas'')), (10000, 0))"
    unfolding t3_def by blast
next
  have "Signer (demoTx [okClause]) = Inr 77 \<and> IntrinsicGas (demoTx [okClause]) = Inr 100 \<and>
        100 \<le> Gas (demoTx [okClause]) \<and>
        Consume demoEnergy (10, 0) (blockTime demoRuntime) 77
          (commonTo (Clauses (demoTx [okClause])))
          (uint (Gas (demoTx [okClause])) * GasPrice (demoTx [okClause]))
          = ((emptyAddress, False), (10, 0))"
    using demo_Signer demo_IntrinsicGas demo_Gas demo_Consume_fail by blast
  with precheck_rejection [of "demoTx [okClause]" _ demoEnergy demoVM demoRuntime "(10, 0)" 77
      100 emptyAddress "(10, 0)"]
  show "ExecuteTransaction demoEnergy demoVM demoRuntime (demoTx [okClause]) (10, 0) =
     Inr ((None, None, Some (errors_New ''insufficient energy'')), (10, 0))"
    by blast
next
  have "Signer (demoTx [okClause]) = Inr 77 \<and> IntrinsicGas (demoTx [okClause]) = Inr 100 \<and>
        100 \<le> Gas (demoTx [okClause]) \<and>
        Consume demoEnergy (10000, 0) (blockTime demoRuntime) 77
          (commonTo (Clauses (demoTx [okClause])))
          (uint (Gas (demoTx [okClause])) * GasPrice (demoTx [okClause]))
          = ((77, True), (8000, 0))"
    using demo_Signer demo_IntrinsicGas demo_Gas demo_Consume by blast
  with precheck_rejection [of "demoTx [okClause]" _ demoEnergy demoVM demoRuntime "(10000, 0)" 77
      100 77 "(8000, 0)"]
  show "\<exists>receipt outs st'.
      ExecuteTransaction demoEnergy demoVM demoRuntime (demoTx [okClause]) (10000, 0) =
        Inr ((Some receipt, Some outs, None), st')"
    by blast
qed

text \<open>
  C5. In every iteration of the clause loop, with an interpreter whose refund counter is
  not negative, the leftover gas after the iteration is the leftover gas the interpreter
  reported plus \<open>min (RefundGas, gasUsed div 2)\<close>, where \<open>gasUsed\<close> is the leftover gas
  before the clause minus the reported leftover gas; the refund is at most
  \<open>gasUsed div 2\<close>, and when the interpreter reports no more than it was given the sum is
  exact on integers.
\<close>

theorem refund_cap:
  assumes "refundNonNegative vm"
    and "clauseStep vm rt tx origin cp clause i ls = Inr (ls', stop)"
  shows "\<exists>out st' refund.
           execute vm rt (ls_state ls) clause i (leftOverGas ls) origin (GasPrice tx) (ID tx)
             False = Inr (out, st') \<and>
           refund = min (RefundGas out) (uint (leftOverGas ls - LeftOverGas out) div 2) \<and>
           leftOverGas ls' = LeftOverGas out + word_of_int refund \<and>
           0 \<le> refund \<and>
           refund \<le> uint (leftOverGas ls - LeftOverGas out) div 2 \<and>
           (LeftOverGas out \<le> leftOverGas ls \<longrightarrow>
              uint (leftOverGas ls') =
                uint (LeftOverGas out) +
                min (RefundGas out) ((uint (leftOverGas ls) - uint (LeftOverGas out)) div 2))"
proof -
  from clauseStep_effect [OF assms(2)] obtain out st' where
    ex: "execute vm rt (ls_state ls) clause i (leftOverGas ls) origin (GasPrice tx) (ID tx)
           False = Inr (out, st')"
    and left: "leftOverGas ls' =
           LeftOverGas out +
           Uint64 (BigMin (RefundGas out) (uint ((leftOverGas ls - LeftOverGas out) div 2)))"
    by blast
  define g where "g = leftOverGas ls - LeftOverGas out"
  define refund where "refund = min (RefundGas out) (uint g div 2)"
  have nn: "0 \<le> RefundGas out"
    using execute_refund [OF assms(1) ex] .
  have w: "Uint64 (BigMin (RefundGas out) (uint (g div 2))) = word_of_int refund"
    using refund_word(1) [OF nn] by (simp add: refund_def)
  have uw: "uint (Uint64 (BigMin (RefundGas out) (uint (g div 2)))) = refund"
    using refund_word(2) [OF nn] by (simp add: refund_def)
  have g0: "0 \<le> uint g div 2" using uint_ge_0 [of g] by arith
  have r0: "0 \<le> refund" using nn g0 by (simp add: refund_def)
  have r1: "refund \<le> uint g div 2" by (simp add: refund_def)
  have l1: "leftOverGas ls' = LeftOverGas out + word_of_int refund"
    using left w by (simp add: g_def)
  have exact: "uint (leftOverGas ls') =
                uint (LeftOverGas out) +
                min (RefundGas out) ((uint (leftOverGas ls) - uint (LeftOverGas out)) div 2)"
    if le: "LeftOverGas out \<le> leftOverGas ls"
  proof -
    have ug: "uint g = uint (leftOverGas ls) - uint (LeftOverGas out)"
      using le by (simp add: g_def uint_sub_lem word_le_def)
    have "uint g div 2 \<le> uint g" using uint_ge_0 [of g] by arith
    with r1 have "refund \<le> uint g" by linarith
    with ug have "uint (LeftOverGas out) + refund \<le> uint (leftOverGas ls)" by linarith
    moreover have "uint (leftOverGas ls) < 2 ^ 64"
      using uint_lt2p [of "leftOverGas ls"] by simp
    ultimately have "uint (LeftOverGas out) +
        uint (Uint64 (BigMin (RefundGas out) (uint (g div 2)))) < 2 ^ LENGTH(64)"
      using uw by simp
    then have "uint (LeftOverGas out + Uint64 (BigMin (RefundGas out) (uint (g div 2)))) =
        uint (LeftOverGas out) + uint (Uint64 (BigMin (RefundGas out) (uint (g div 2))))"
      by (rule iffD1 [OF uint_add_lem])
    with uw left have "uint (leftOverGas ls') = uint (LeftOverGas out) + refund"
      by (simp add: g_def)
    then show ?thesis by (simp add: refund_def ug)
  qed
  show ?thesis
    using ex l1 r0 r1 exact unfolding refund_def g_def by blast
qed

theorem refund_cap_witness:
  "\<exists>out st' refund.
     execute demoVM demoRuntime (8000, 0) okClause 0 900 77 (GasPrice (demoTx [])) (ID (demoTx []))
       False = Inr (out, st') \<and>
     refund = min (RefundGas out) (uint (900 - LeftOverGas out) div 2) \<and>
     (455 :: u64) = LeftOverGas out + word_of_int refund \<and>
     0 \<le> refund \<and>
     refund \<le> uint (900 - LeftOverGas out) div 2 \<and>
     (LeftOverGas out \<le> 900 \<longrightarrow>
        uint (455 :: u64) =
          uint (LeftOverGas out) +
          min (RefundGas out) ((uint (900 :: u64) - uint (LeftOverGas out)) div 2))"
  using refund_cap [OF demoVM_refund demo_step [of "[]"]] by simp

text \<open>
  C2. On the transaction with a succeeding and then a failing clause, the second raw
  output carries an error, the receipt's \<open>Outputs\<close> is nil, and yet the receipt's
  \<open>Reverted\<close> flag is false: \<open>ExecuteTransaction\<close> never assigns it.
\<close>

theorem reverted_flag_unset:
  "ExecuteTransaction demoEnergy demoVM demoRuntime (demoTx [okClause, badClause]) (10000, 0) =
     Inr ((Some \<lparr>GasUsed = 768, GasPayer = emptyAddress, Reverted = False, Outputs = None\<rparr>,
           Some [Some (demoOutput 7 [] 900), Some (demoOutput 7 [1] 455)], None),
          (8464, 0)) \<and>
   VMErr (demoOutput 7 [1] 455) = Some (errors_New ''execution reverted'')"
  using demo_run_revert by (simp add: demoOutput_def)

text \<open>
  C6. On the transaction with one succeeding clause, the energy contract names address
  77 as the payer, and the receipt's \<open>GasPayer\<close> is the empty address:
  \<open>ExecuteTransaction\<close> never assigns the field.
\<close>

theorem gas_payer_unset:
  "ExecuteTransaction demoEnergy demoVM demoRuntime (demoTx [okClause]) (10000, 0) =
     Inr ((Some \<lparr>GasUsed = 545, GasPayer = emptyAddress, Reverted = False,
                 Outputs = Some [Some \<lparr>Logs = Logs_vm (demoOutput 7 [] 900)\<rparr>]\<rparr>,
           Some [Some (demoOutput 7 [] 900)], None),
          (8910, 1)) \<and>
   fst (fst (Consume demoEnergy (10000, 0) (blockTime demoRuntime) 77
               (commonTo (Clauses (demoTx [okClause])))
               (uint (Gas (demoTx [okClause])) * GasPrice (demoTx [okClause])))) = 77 \<and>
   (77 :: address) \<noteq> emptyAddress"
  using demo_run_ok demo_Consume [of "[okClause]"] by (simp add: emptyAddress_def)

section \<open>Receipt conversion\<close>

lemma hexValue_hexDigit:
  assumes "n < 16"
  shows "hexValue (hexDigit n) = Some n"
proof -
  from assms consider "n = 0" | "n = 1" | "n = 2" | "n = 3" | "n = 4" | "n = 5" | "n = 6"
    | "n = 7" | "n = 8" | "n = 9" | "n = 10" | "n = 11" | "n = 12" | "n = 13" | "n = 14"
    | "n = 15" by atomize_elim arith
  then show ?thesis
    by cases (simp_all add: hexValue_def hexDigit_def)
qed

lemma byte_split: "(of_nat (16 * (unat x div 16) + unat x mod 16) :: byte) = x"
  by simp

lemma decodePairs_encode:
  "decodePairs (concat (map (\<lambda>x. [hexDigit (unat x div 16), hexDigit (unat x mod 16)]) b))
     = Some b"
proof (induction b)
  case Nil
  show ?case by simp
next
  case (Cons x b)
  have "unat x < 256" using unsigned_less [of x, where ?'a = nat] by simp
  then have hi: "unat x div 16 < 16" by simp
  have lo: "unat x mod 16 < 16" by simp
  show ?case
    using Cons.IH by (simp add: hexValue_hexDigit [OF hi] hexValue_hexDigit [OF lo])
qed

lemma hexDecode_Encode: "hexDecode (hexutil_Encode b) = Some b"
  by (simp add: hexDecode_def hexutil_Encode_def decodePairs_encode)

lemma convertOutputs_present:
  assumes "\<forall>output\<in>set outputs. output \<noteq> None"
  shows "convertOutputs outputs =
           Inr (map (\<lambda>output. \<lparr>Logs_types = map convertLog (Logs (the output))\<rparr>) outputs)"
  using assms
proof (induction outputs)
  case Nil
  show ?case by simp
next
  case (Cons entry rest)
  then obtain otp where "entry = Some otp" by auto
  with Cons show ?case by simp
qed

text \<open>
  C9, as the code has it. For a receipt whose output entries are all present,
  \<open>ConvertReceipt\<close> copies \<open>GasUsed\<close>, \<open>GasPayer\<close> and \<open>Reverted\<close>, and maps the outputs
  one to one and in order, and in each output the logs one to one and in order. A
  converted log has the address and the topic list of its source; its data is not the
  source's bytes but the string \<open>hexutil.Encode\<close> makes of them, from which the bytes are
  read back exactly.
\<close>

theorem ConvertReceipt_fidelity:
  assumes "\<forall>entry\<in>set (case Outputs rece of None \<Rightarrow> [] | Some outputs \<Rightarrow> outputs).
             entry \<noteq> None"
  shows "ConvertReceipt rece =
           Inr \<lparr>GasUsed_types = GasUsed rece,
                GasPayer_types = GasPayer rece,
                Reverted_types = Reverted rece,
                Outputs_types =
                  map (\<lambda>entry. \<lparr>Logs_types = map convertLog (Logs (the entry))\<rparr>)
                    (case Outputs rece of None \<Rightarrow> [] | Some outputs \<Rightarrow> outputs)\<rparr> \<and>
         Address_rl (convertLog log) = Address log \<and>
         Topics_rl (convertLog log) = Topics log \<and>
         Data_rl (convertLog log) = hexutil_Encode (LogData log) \<and>
         hexDecode (Data_rl (convertLog log)) = Some (LogData log)"
proof -
  have "ConvertReceipt rece =
           Inr \<lparr>GasUsed_types = GasUsed rece,
                GasPayer_types = GasPayer rece,
                Reverted_types = Reverted rece,
                Outputs_types =
                  map (\<lambda>entry. \<lparr>Logs_types = map convertLog (Logs (the entry))\<rparr>)
                    (case Outputs rece of None \<Rightarrow> [] | Some outputs \<Rightarrow> outputs)\<rparr>"
    by (simp add: ConvertReceipt_def convertOutputs_present [OF assms])
  moreover have "Address_rl (convertLog log) = Address log"
    and "Topics_rl (convertLog log) = Topics log"
    and "Data_rl (convertLog log) = hexutil_Encode (LogData log)"
    by (simp_all add: convertLog_def)
  moreover have "hexDecode (Data_rl (convertLog log)) = Some (LogData log)"
    by (simp add: convertLog_def hexDecode_Encode)
  ultimately show ?thesis by blast
qed

theorem ConvertReceipt_fidelity_witness:
  "ConvertReceipt demoReceipt =
     Inr \<lparr>GasUsed_types = GasUsed demoReceipt,
          GasPayer_types = GasPayer demoReceipt,
          Reverted_types = Reverted demoReceipt,
          Outputs_types =
            map (\<lambda>entry. \<lparr>Logs_types = map convertLog (Logs (the entry))\<rparr>)
              (case Outputs demoReceipt of None \<Rightarrow> [] | Some outputs \<Rightarrow> outputs)\<rparr> \<and>
   Address_rl (convertLog demoLog) = Address demoLog \<and>
   Topics_rl (convertLog demoLog) = Topics demoLog \<and>
   Data_rl (convertLog demoLog) = hexutil_Encode (LogData demoLog) \<and>
   hexDecode (Data_rl (convertLog demoLog)) = Some (LogData demoLog)"
proof -
  have "\<forall>entry\<in>set (case Outputs demoReceipt of None \<Rightarrow> [] | Some outputs \<Rightarrow> outputs).
          entry \<noteq> None"
    by (simp add: demoReceipt_def)
  then show ?thesis by (rule ConvertReceipt_fidelity)
qed

text \<open>
  The data of a converted log is not the data of its source: the one byte \<open>0xab\<close> becomes
  the four characters \<open>0xab\<close>.
\<close>

theorem ConvertReceipt_data_counterexample:
  "ConvertReceipt demoReceipt =
     Inr \<lparr>GasUsed_types = 545, GasPayer_types = 77, Reverted_types = False,
          Outputs_types =
            [\<lparr>Logs_types = [\<lparr>Address_rl = 7, Topics_rl = [1, 2], Data_rl = ''0xab''\<rparr>]\<rparr>]\<rparr> \<and>
   LogData demoLog = [171] \<and>
   bytesOf ''0xab'' = [48, 120, 97, 98] \<and>
   bytesOf ''0xab'' \<noteq> LogData demoLog"
  by (simp add: ConvertReceipt_def demoReceipt_def demoLog_def convertLog_def hexutil_Encode_def
        hexDigit_def bytesOf_def)

end
